theory Spec2Isabelle
  imports Complex_Main "HOL-Library.Char_ord" "HOL-Library.List_Lexorder"
begin

section \<open>The API coverage and usage server\<close>

text \<open>
  A shallow embedding of \<open>netlify/functions/server.js\<close>: the helper \<open>generateDateRange\<close>,
  the helper \<open>calculateSummary\<close> and the four handlers \<open>/api/summary\<close>,
  \<open>/api/coverage-usage\<close>, \<open>/api/coverage-trends\<close> and \<open>/api/apis\<close>. A handler is a function
  from the environment of the request (the time zone of the process and the files of the
  data directory) and the query parameters to the response and the trace of file system
  calls and console output. An exception is a value; the outer \<open>try\<close>/\<open>catch\<close> of a handler
  turns it into the answer 500.
\<close>

subsection \<open>Time values and the calendar of ECMAScript\<close>

text \<open>
  A \<open>Date\<close> holds a time value: milliseconds since 1970-01-01T00:00:00Z, or \<open>NaN\<close>
  (here \<open>None\<close>). The functions below are the abstract operations of the language
  specification (\<open>Day\<close>, \<open>DayFromYear\<close>, \<open>YearFromTime\<close>, \<open>MonthFromTime\<close>, \<open>DateFromTime\<close>,
  \<open>MakeDay\<close>, \<open>MakeDate\<close>, \<open>TimeClip\<close>, \<open>LocalTime\<close>, \<open>UTC\<close>), on integers; \<open>div\<close> and
  \<open>mod\<close> round towards minus infinity, as \<open>floor\<close> and \<open>modulo\<close> do there.
\<close>

definition msPerDay :: int where
  "msPerDay = 86400000"

definition Day :: "int \<Rightarrow> int" where
  "Day t = t div msPerDay"

definition TimeWithinDay :: "int \<Rightarrow> int" where
  "TimeWithinDay t = t mod msPerDay"

definition DaysInYear :: "int \<Rightarrow> int" where
  "DaysInYear y =
     (if y mod 4 \<noteq> 0 then 365
      else if y mod 100 \<noteq> 0 then 366
      else if y mod 400 \<noteq> 0 then 365
      else 366)"

definition DayFromYear :: "int \<Rightarrow> int" where
  "DayFromYear y =
     365 * (y - 1970) + (y - 1969) div 4 - (y - 1901) div 100 + (y - 1601) div 400"

text \<open>
  \<open>YearFromTime(t)\<close> is the largest \<open>y\<close> with \<open>DayFromYear(y) \<le> Day(t)\<close>. It is computed
  by a search upwards from a year that is not after it, over a span that reaches past it.
\<close>

fun scan_year :: "int \<Rightarrow> int \<Rightarrow> nat \<Rightarrow> int" where
  "scan_year d y 0 = y"
| "scan_year d y (Suc k) =
     (if DayFromYear (y + 1) \<le> d then scan_year d (y + 1) k else y)"

definition YearFromDay :: "int \<Rightarrow> int" where
  "YearFromDay d =
     (let lo = 1970 + min (d div 365) (d div 366) - 1;
          hi = 1970 + max (d div 365) (d div 366) + 1
      in scan_year d lo (nat (hi - lo)))"

definition YearFromTime :: "int \<Rightarrow> int" where
  "YearFromTime t = YearFromDay (Day t)"


definition InLeapYear :: "int \<Rightarrow> int" where
  "InLeapYear t = (if DaysInYear (YearFromTime t) = 365 then 0 else 1)"

definition DayWithinYear :: "int \<Rightarrow> int" where
  "DayWithinYear t = Day t - DayFromYear (YearFromTime t)"

text \<open>
  The table of \<open>MonthFromTime\<close>, on the day within the year and the leap year flag, and
  the day within the year on which a month starts, which is what \<open>DateFromTime\<close> subtracts
  and what \<open>MakeDay\<close> adds.
\<close>

definition month_of_day :: "int \<Rightarrow> int \<Rightarrow> int" where
  "month_of_day d l =
     (if d < 31 then 0
      else if d < 59 + l then 1
      else if d < 90 + l then 2
      else if d < 120 + l then 3
      else if d < 151 + l then 4
      else if d < 181 + l then 5
      else if d < 212 + l then 6
      else if d < 243 + l then 7
      else if d < 273 + l then 8
      else if d < 304 + l then 9
      else if d < 334 + l then 10
      else 11)"

definition MonthFromTime :: "int \<Rightarrow> int" where
  "MonthFromTime t = month_of_day (DayWithinYear t) (InLeapYear t)"

definition MonthStart :: "int \<Rightarrow> int \<Rightarrow> int" where
  "MonthStart mn l =
     (if mn = 0 then 0
      else if mn = 1 then 31
      else if mn = 2 then 59 + l
      else if mn = 3 then 90 + l
      else if mn = 4 then 120 + l
      else if mn = 5 then 151 + l
      else if mn = 6 then 181 + l
      else if mn = 7 then 212 + l
      else if mn = 8 then 243 + l
      else if mn = 9 then 273 + l
      else if mn = 10 then 304 + l
      else 334 + l)"

definition DateFromTime :: "int \<Rightarrow> int" where
  "DateFromTime t = DayWithinYear t - MonthStart (MonthFromTime t) (InLeapYear t) + 1"

text \<open>
  \<open>MakeDay(year, month, date)\<close>: the day number of the first of the month, plus
  \<open>date - 1\<close>. A month outside \<open>0..11\<close> and a date outside the month carry over.
\<close>

definition MakeDay :: "int \<Rightarrow> int \<Rightarrow> int \<Rightarrow> int" where
  "MakeDay year month date =
     (let ym = year + month div 12;
          mn = month mod 12;
          l = (if DaysInYear ym = 365 then 0 else 1)
      in DayFromYear ym + MonthStart mn l + date - 1)"

definition MakeDate :: "int \<Rightarrow> int \<Rightarrow> int" where
  "MakeDate day time = day * msPerDay + time"

definition TimeClip :: "int \<Rightarrow> int option" where
  "TimeClip t = (if \<bar>t\<bar> > 8640000000000000 then None else Some t)"

text \<open>
  The time zone of the process is the function \<open>tza\<close>: \<open>tza t True\<close> is the offset of local
  time at the UTC time \<open>t\<close>, \<open>tza t False\<close> the offset at the local time \<open>t\<close>. \<open>getDate\<close> and
  \<open>setDate\<close> work on local time; \<open>toISOString\<close> prints UTC.
\<close>

definition LocalTime :: "(int \<Rightarrow> bool \<Rightarrow> int) \<Rightarrow> int \<Rightarrow> int" where
  "LocalTime tza t = t + tza t True"

definition UTC :: "(int \<Rightarrow> bool \<Rightarrow> int) \<Rightarrow> int \<Rightarrow> int" where
  "UTC tza t = t - tza t False"

definition getDate :: "(int \<Rightarrow> bool \<Rightarrow> int) \<Rightarrow> int \<Rightarrow> int" where
  "getDate tza t = DateFromTime (LocalTime tza t)"

definition setDate :: "(int \<Rightarrow> bool \<Rightarrow> int) \<Rightarrow> int \<Rightarrow> int \<Rightarrow> int option" where
  "setDate tza t dt =
     (let lt = LocalTime tza t;
          newDate = MakeDate (MakeDay (YearFromTime lt) (MonthFromTime lt) dt) (TimeWithinDay lt)
      in TimeClip (UTC tza newDate))"

subsection \<open>Strings of digits\<close>

definition digit_char :: "nat \<Rightarrow> char" where
  "digit_char n = char_of (48 + n)"

fun pad :: "nat \<Rightarrow> nat \<Rightarrow> string" where
  "pad 0 n = []"
| "pad (Suc k) n = pad k (n div 10) @ [digit_char (n mod 10)]"

text \<open>
  \<open>toISOString\<close> writes years 0 to 9999 with four digits, other years with a sign and six
  digits. \<open>s.split("T")[0]\<close> is the part of \<open>s\<close> before the first \<open>T\<close>.
\<close>

definition year_string :: "int \<Rightarrow> string" where
  "year_string y =
     (if 0 \<le> y \<and> y \<le> 9999 then pad 4 (nat y)
      else (if y < 0 then ''-'' else ''+'') @ pad 6 (nat \<bar>y\<bar>))"

definition toISOString :: "int \<Rightarrow> string" where
  "toISOString t =
     year_string (YearFromTime t) @ ''-'' @ pad 2 (nat (MonthFromTime t + 1)) @ ''-'' @
     pad 2 (nat (DateFromTime t)) @ ''T'' @
     pad 2 (nat (t div 3600000 mod 24)) @ '':'' @ pad 2 (nat (t div 60000 mod 60)) @ '':'' @
     pad 2 (nat (t div 1000 mod 60)) @ ''.'' @ pad 3 (nat (t mod 1000)) @ ''Z''"

definition split_T_first :: "string \<Rightarrow> string" where
  "split_T_first s = takeWhile (\<lambda>c. c \<noteq> CHR ''T'') s"

definition is_digit :: "char \<Rightarrow> bool" where
  "is_digit c = (48 \<le> (of_char c :: nat) \<and> (of_char c :: nat) \<le> 57)"

definition digit_val :: "char \<Rightarrow> nat" where
  "digit_val c = of_char c - 48"

definition digits_val :: "string \<Rightarrow> nat" where
  "digits_val s = foldl (\<lambda>a c. 10 * a + digit_val c) 0 s"

text \<open>
  \<open>new Date(s)\<close> for a string. The model reads the calendar day form \<open>YYYY-MM-DD\<close> of the
  date time string format, which denotes midnight UTC of that day; the engine of Node.js
  accepts a month from 1 to 12 and a day from 1 to 31 and lets \<open>MakeDay\<close> carry a day past
  the end of the month over. Every other string is \<open>NaN\<close> in the model.
\<close>

definition Date_parse :: "string \<Rightarrow> int option" where
  "Date_parse s =
     (if length s = 10 \<and> s ! 4 = CHR ''-'' \<and> s ! 7 = CHR ''-'' \<and>
         list_all is_digit (take 4 s) \<and> list_all is_digit (take 2 (drop 5 s)) \<and>
         list_all is_digit (drop 8 s)
      then
        (let year = int (digits_val (take 4 s));
             month = int (digits_val (take 2 (drop 5 s)));
             day = int (digits_val (drop 8 s))
         in if 1 \<le> month \<and> month \<le> 12 \<and> 1 \<le> day \<and> day \<le> 31
            then TimeClip (MakeDate (MakeDay year (month - 1) day) 0)
            else None)
      else None)"

subsection \<open>\<open>generateDateRange\<close>\<close>

text \<open>
  The function returns (it does not throw) an \<open>Error\<close> object when an end point is not a
  date, and the array of day keys otherwise. Whether the loop ends depends on the time
  zone, so it is a partial function: \<open>None\<close> stands for a loop that does not end. A
  \<open>NaN\<close> time value ends the loop, since \<open>NaN <= endDate\<close> is false.
\<close>

datatype range_result = InvalidDate | Dates "string list"

partial_function (option) date_loop ::
  "(int \<Rightarrow> bool \<Rightarrow> int) \<Rightarrow> int option \<Rightarrow> int \<Rightarrow> string list \<Rightarrow> string list option" where
  "date_loop tza startDate endDate dates =
     (case startDate of
        None \<Rightarrow> Some dates
      | Some s \<Rightarrow>
          if s \<le> endDate
          then date_loop tza (setDate tza s (getDate tza s + 1)) endDate
                 (dates @ [split_T_first (toISOString s)])
          else Some dates)"

definition generateDateRange ::
  "(int \<Rightarrow> bool \<Rightarrow> int) \<Rightarrow> string \<Rightarrow> string \<Rightarrow> range_result option" where
  "generateDateRange tza start end =
     (case (Date_parse start, Date_parse end) of
        (Some startDate, Some endDate) \<Rightarrow>
          map_option Dates (date_loop tza (Some startDate) endDate [])
      | _ \<Rightarrow> Some InvalidDate)"

subsection \<open>Numbers\<close>

text \<open>
  A JavaScript number is an IEEE 754 double. The model keeps the four kinds of value the
  arithmetic of the handlers can produce: a finite value, \<open>NaN\<close> and the two infinities.
  Finite values are exact rationals: rounding to 53 bits and the sign of zero are not
  modelled. Dividing by zero throws nothing: it yields \<open>NaN\<close> or an infinity.
\<close>

datatype jsnum = Finite rat | NaN | Infinity | NegInfinity

fun js_add :: "jsnum \<Rightarrow> jsnum \<Rightarrow> jsnum" where
  "js_add (Finite a) (Finite b) = Finite (a + b)"
| "js_add NaN _ = NaN"
| "js_add _ NaN = NaN"
| "js_add Infinity NegInfinity = NaN"
| "js_add NegInfinity Infinity = NaN"
| "js_add Infinity _ = Infinity"
| "js_add _ Infinity = Infinity"
| "js_add NegInfinity _ = NegInfinity"
| "js_add _ NegInfinity = NegInfinity"

fun js_mul :: "jsnum \<Rightarrow> jsnum \<Rightarrow> jsnum" where
  "js_mul (Finite a) (Finite b) = Finite (a * b)"
| "js_mul NaN _ = NaN"
| "js_mul _ NaN = NaN"
| "js_mul (Finite a) Infinity = (if a = 0 then NaN else if 0 < a then Infinity else NegInfinity)"
| "js_mul (Finite a) NegInfinity = (if a = 0 then NaN else if 0 < a then NegInfinity else Infinity)"
| "js_mul Infinity (Finite b) = (if b = 0 then NaN else if 0 < b then Infinity else NegInfinity)"
| "js_mul NegInfinity (Finite b) = (if b = 0 then NaN else if 0 < b then NegInfinity else Infinity)"
| "js_mul Infinity Infinity = Infinity"
| "js_mul Infinity NegInfinity = NegInfinity"
| "js_mul NegInfinity Infinity = NegInfinity"
| "js_mul NegInfinity NegInfinity = Infinity"

fun js_div :: "jsnum \<Rightarrow> jsnum \<Rightarrow> jsnum" where
  "js_div (Finite a) (Finite b) =
     (if b \<noteq> 0 then Finite (a / b)
      else if 0 < a then Infinity else if a < 0 then NegInfinity else NaN)"
| "js_div NaN _ = NaN"
| "js_div _ NaN = NaN"
| "js_div (Finite a) _ = Finite 0"
| "js_div Infinity (Finite b) = (if 0 \<le> b then Infinity else NegInfinity)"
| "js_div NegInfinity (Finite b) = (if 0 \<le> b then NegInfinity else Infinity)"
| "js_div _ _ = NaN"

fun show_nat :: "nat \<Rightarrow> string" where
  "show_nat n = (if n < 10 then [digit_char n] else show_nat (n div 10) @ [digit_char (n mod 10)])"

text \<open>
  \<open>x.toFixed(1)\<close>: the sign, then the integer \<open>n\<close> nearest to \<open>10 * \<bar>x\<bar>\<close> (the larger one
  on a tie), written with one digit after the point. The values reached here stay below
  \<open>10^21\<close>, where \<open>toFixed\<close> switches to exponent notation.
\<close>

definition tenths :: "rat \<Rightarrow> nat" where
  "tenths q = nat \<lfloor>\<bar>q\<bar> * 10 + 1 / 2\<rfloor>"

definition toFixed1 :: "jsnum \<Rightarrow> string" where
  "toFixed1 x =
     (case x of
        NaN \<Rightarrow> ''NaN''
      | Infinity \<Rightarrow> ''Infinity''
      | NegInfinity \<Rightarrow> ''-Infinity''
      | Finite q \<Rightarrow>
          (if q < 0 then ''-'' else '''') @ show_nat (tenths q div 10) @ ''.'' @
          [digit_char (tenths q mod 10)])"

subsection \<open>JSON scalars and their coercion to numbers\<close>

text \<open>
  The value of a \<open>usage_count\<close> or \<open>total_clients\<close> field as \<open>JSON.parse\<close> delivers it:
  absent (\<open>undefined\<close>), \<open>null\<close>, a boolean, a number or a string. A JSON number is taken to
  be an integer of magnitude below \<open>2^53\<close>, so that it is exact and prints as its decimal
  numeral. Characters are Latin-1.
\<close>

datatype jsval = JUndefined | JNull | JBool bool | JNum int | JStr string

definition is_space :: "char \<Rightarrow> bool" where
  "is_space c = ((of_char c :: nat) \<in> {9, 10, 11, 12, 13, 32, 160})"

text \<open>
  \<open>parseInt(v, 10)\<close>: the argument is turned into a string, leading white space and one
  sign are skipped, and the longest prefix of decimal digits is read; no digit gives
  \<open>NaN\<close> (here \<open>None\<close>). \<open>undefined\<close>, \<open>null\<close>, \<open>true\<close> and \<open>false\<close> print as words, an
  integer prints as its numeral.
\<close>

definition parseInt_string :: "string \<Rightarrow> int option" where
  "parseInt_string s =
     (let S = dropWhile is_space s;
          sign = (if S \<noteq> [] \<and> hd S = CHR ''-'' then - 1 else 1 :: int);
          S' = (if S \<noteq> [] \<and> (hd S = CHR ''+'' \<or> hd S = CHR ''-'') then tl S else S);
          Z = takeWhile is_digit S'
      in if Z = [] then None else Some (sign * int (digits_val Z)))"

definition parseInt :: "jsval \<Rightarrow> int option" where
  "parseInt v =
     (case v of
        JNum n \<Rightarrow> Some n
      | JStr s \<Rightarrow> parseInt_string s
      | _ \<Rightarrow> None)"

text \<open>\<open>x || 0\<close> for the result of \<open>parseInt\<close>: \<open>NaN\<close> and \<open>0\<close> are falsy.\<close>

definition or_zero :: "int option \<Rightarrow> int" where
  "or_zero x = (case x of None \<Rightarrow> 0 | Some n \<Rightarrow> if n = 0 then 0 else n)"

text \<open>
  \<open>Number(v)\<close>. A string is trimmed of white space; the empty string is \<open>0\<close>; otherwise it
  must be, as a whole, a decimal literal (sign, digits, fraction, exponent, or
  \<open>Infinity\<close>) or an unsigned literal in base 16, 8 or 2; anything else is \<open>NaN\<close>.
\<close>

definition trim :: "string \<Rightarrow> string" where
  "trim s = rev (dropWhile is_space (rev (dropWhile is_space s)))"

definition radix_digit :: "char \<Rightarrow> nat option" where
  "radix_digit c =
     (let k = (of_char c :: nat)
      in if 48 \<le> k \<and> k \<le> 57 then Some (k - 48)
         else if 97 \<le> k \<and> k \<le> 102 then Some (k - 87)
         else if 65 \<le> k \<and> k \<le> 70 then Some (k - 55)
         else None)"

definition radix_literal :: "nat \<Rightarrow> string \<Rightarrow> jsnum" where
  "radix_literal b ds =
     (if ds \<noteq> [] \<and> list_all (\<lambda>c. case radix_digit c of None \<Rightarrow> False | Some k \<Rightarrow> k < b) ds
      then Finite (of_nat (foldl (\<lambda>a c. b * a + (case radix_digit c of None \<Rightarrow> 0 | Some k \<Rightarrow> k)) 0 ds))
      else NaN)"

definition exponent_part :: "string \<Rightarrow> int option" where
  "exponent_part s =
     (case s of
        [] \<Rightarrow> Some 0
      | c # r \<Rightarrow>
          if c = CHR ''e'' \<or> c = CHR ''E''
          then (let neg = (r \<noteq> [] \<and> hd r = CHR ''-'');
                    ds = (if r \<noteq> [] \<and> (hd r = CHR ''+'' \<or> hd r = CHR ''-'') then tl r else r)
                in if ds \<noteq> [] \<and> list_all is_digit ds
                   then Some ((if neg then - 1 else 1) * int (digits_val ds))
                   else None)
          else None)"

definition unsigned_decimal :: "string \<Rightarrow> jsnum" where
  "unsigned_decimal s =
     (if s = ''Infinity'' then Infinity
      else
        (let ip = takeWhile is_digit s;
             r1 = dropWhile is_digit s;
             dot = (r1 \<noteq> [] \<and> hd r1 = CHR ''.'');
             fp = (if dot then takeWhile is_digit (tl r1) else []);
             r2 = (if dot then dropWhile is_digit (tl r1) else r1)
         in if ip = [] \<and> fp = [] then NaN
            else (case exponent_part r2 of
                    None \<Rightarrow> NaN
                  | Some e \<Rightarrow>
                      (let m = of_nat (digits_val ip) + of_nat (digits_val fp) / 10 ^ length fp
                       in Finite (if 0 \<le> e then m * 10 ^ nat e else m / 10 ^ nat (- e))))))"

definition js_neg :: "jsnum \<Rightarrow> jsnum" where
  "js_neg x =
     (case x of Finite q \<Rightarrow> Finite (- q) | NaN \<Rightarrow> NaN | Infinity \<Rightarrow> NegInfinity
      | NegInfinity \<Rightarrow> Infinity)"

definition StringToNumber :: "string \<Rightarrow> jsnum" where
  "StringToNumber s =
     (let t = trim s
      in if t = [] then Finite 0
         else if take 2 t = ''0x'' \<or> take 2 t = ''0X'' then radix_literal 16 (drop 2 t)
         else if take 2 t = ''0o'' \<or> take 2 t = ''0O'' then radix_literal 8 (drop 2 t)
         else if take 2 t = ''0b'' \<or> take 2 t = ''0B'' then radix_literal 2 (drop 2 t)
         else if hd t = CHR ''-'' then js_neg (unsigned_decimal (tl t))
         else if hd t = CHR ''+'' then unsigned_decimal (tl t)
         else unsigned_decimal t)"

definition Number :: "jsval \<Rightarrow> jsnum" where
  "Number v =
     (case v of
        JUndefined \<Rightarrow> NaN
      | JNull \<Rightarrow> Finite 0
      | JBool b \<Rightarrow> Finite (if b then 1 else 0)
      | JNum n \<Rightarrow> Finite (of_int n)
      | JStr s \<Rightarrow> StringToNumber s)"

subsection \<open>Snapshots\<close>

text \<open>
  A coverage file holds an object keyed by API name; the model keeps its entries in
  the order \<open>Object.keys\<close> enumerates them, each key once, so that \<open>cov[name]\<close> is
  \<open>map_of cov name\<close> (a name that \<open>Object.prototype\<close> defines, such as \<open>constructor\<close>, is
  not modelled) and a loop over \<open>Object.keys(cov)\<close> that reads \<open>cov[name]\<close> is a loop over
  the entries. A usage file holds an array of records. The fields \<open>full_size\<close> and
  \<open>covered_lines\<close> are integers.
\<close>

record coverage_record =
  full_size :: int
  covered_lines :: int
  apidoc :: string

type_synonym coverage_map = "(string \<times> coverage_record) list"

record usage_record =
  api_name :: string
  usage_count :: jsval
  total_clients :: jsval

type_synonym usage_list = "usage_record list"

definition Object_keys :: "coverage_map \<Rightarrow> string list" where
  "Object_keys cov = map fst cov"

text \<open>\<open>(api.covered_lines / api.full_size) * 100\<close>\<close>

definition coverage_percent :: "coverage_record \<Rightarrow> jsnum" where
  "coverage_percent api =
     js_mul (js_div (Finite (of_int (covered_lines api))) (Finite (of_int (full_size api))))
       (Finite 100)"

text \<open>\<open>use.find((u) => u.api_name === name)\<close>: the first record of that name.\<close>

definition findUsage :: "usage_list \<Rightarrow> string \<Rightarrow> usage_record option" where
  "findUsage use name = find (\<lambda>u. api_name u = name) use"

text \<open>
  What the file system holds for one path: no file, a file that \<open>JSON.parse\<close> rejects
  with a \<open>SyntaxError\<close>, or a file with well-formed content.
\<close>

datatype 'a file_state = Absent | Malformed | Content 'a

text \<open>
  The environment of a request: the time zone of the process (the offset of local time
  in milliseconds, as \<open>LocalTZA(t, isUTC)\<close> of ECMAScript) and the files of the data
  directory, \<open>api_coverage_<date>.json\<close> and \<open>api_usage_<date>.json\<close>, by their date.
\<close>

record env =
  LocalTZA :: "int \<Rightarrow> bool \<Rightarrow> int"
  coverage_file :: "string \<Rightarrow> coverage_map file_state"
  usage_file :: "string \<Rightarrow> usage_list file_state"

datatype resource = CoverageFile string | UsageFile string

text \<open>What a handler does besides answering: file system calls and console output.\<close>

datatype event =
  ConsoleLog
  | ExistsSync resource
  | ReadFileSync resource
  | ConsoleWarn string
  | ConsoleError

datatype exn = SyntaxError | TypeError

subsection \<open>Responses\<close>

record summary =
  totalAPIs :: nat
  avgCoverage :: jsnum
  totalCalls :: int

record scatter_point =
  sp_name :: string
  sp_coverage :: jsnum
  sp_usage :: jsnum

record trend_point =
  tp_date :: string
  tp_avgCoverage :: jsnum

record api_row =
  row_name :: string
  row_coverage :: string
  row_usage :: jsnum
  row_totalClients :: jsnum
  row_apidoc :: string
  row_fullSize :: int
  row_coveredLines :: int

datatype body =
  ErrorBody string
  | SummaryBody summary
  | ScatterBody "scatter_point list"
  | TrendsBody "trend_point list"
  | TableBody "api_row list"

record response =
  status :: nat
  body :: body

text \<open>The outer \<open>catch\<close> of every handler.\<close>

definition internal_error :: "event list \<Rightarrow> response \<times> event list" where
  "internal_error trace =
     (\<lparr>status = 500, body = ErrorBody ''Internal server error''\<rparr>, trace @ [ConsoleError])"

subsection \<open>\<open>calculateSummary\<close>\<close>

definition Set_add :: "string list \<Rightarrow> string \<Rightarrow> string list" where
  "Set_add s n = (if n \<in> set s then s else s @ [n])"

definition nth_opt :: "'a list \<Rightarrow> nat \<Rightarrow> 'a option" where
  "nth_opt xs i = (if i < length xs then Some (xs ! i) else None)"

text \<open>
  The body of the inner loop, for one name, on the triple of \<open>totalCoverage\<close>,
  \<open>totalCalls\<close> (here \<open>calls\<close>) and \<open>count\<close>; \<open>use\<close> is \<open>allUsage[i]\<close>, which is \<open>undefined\<close>
  (\<open>None\<close>) past the end of the array.
\<close>

definition summary_step ::
  "coverage_map \<Rightarrow> usage_list option \<Rightarrow> jsnum \<times> int \<times> nat \<Rightarrow> string \<Rightarrow> jsnum \<times> int \<times> nat" where
  "summary_step cov use acc name =
     (case acc of (totalCoverage, calls, count) \<Rightarrow>
        (let api = map_of cov name;
             usage = (case use of None \<Rightarrow> None | Some us \<Rightarrow> findUsage us name);
             covered = (case api of
                          Some a \<Rightarrow> (js_add totalCoverage (coverage_percent a), count + 1)
                        | None \<Rightarrow> (totalCoverage, count));
             calls' = (case usage of
                         Some u \<Rightarrow> calls + or_zero (parseInt (usage_count u))
                       | None \<Rightarrow> calls)
         in (fst covered, calls', snd covered)))"

function summary_loop ::
  "string list \<Rightarrow> coverage_map list \<Rightarrow> usage_list list \<Rightarrow> nat \<Rightarrow> jsnum \<times> int \<times> nat \<Rightarrow>
   jsnum \<times> int \<times> nat" where
  "summary_loop allApiNames allCoverage allUsage i acc =
     (if i < length allCoverage
      then summary_loop allApiNames allCoverage allUsage (i + 1)
             (foldl (summary_step (allCoverage ! i) (nth_opt allUsage i)) acc allApiNames)
      else acc)"
  by pat_completeness auto
termination
  by (relation "measure (\<lambda>(allApiNames, allCoverage, allUsage, i, acc). length allCoverage - i)")
    auto

definition calculateSummary :: "coverage_map list \<Rightarrow> usage_list list \<Rightarrow> summary" where
  "calculateSummary allCoverage allUsage =
     (if length allCoverage = 0
      then \<lparr>totalAPIs = 0, avgCoverage = Finite 0, totalCalls = 0\<rparr>
      else
        (let allApiNames = foldl (\<lambda>s cov. foldl Set_add s (Object_keys cov)) [] allCoverage
         in case summary_loop allApiNames allCoverage allUsage 0 (Finite 0, 0, 0) of
              (totalCoverage, calls, count) \<Rightarrow>
                \<lparr>totalAPIs = length allApiNames,
                 avgCoverage =
                   (if count \<noteq> 0 then js_div totalCoverage (Finite (of_nat count)) else Finite 0),
                 totalCalls = calls\<rparr>))"

subsection \<open>\<open>GET /api/summary\<close>\<close>

text \<open>
  One turn of the loop over the dates. The \<open>try\<close> covers both files: when the coverage
  file is malformed, the \<open>catch\<close> warns and the usage file of that day is not looked at.
\<close>

definition summary_read_usage ::
  "env \<Rightarrow> string \<Rightarrow> coverage_map list \<Rightarrow> usage_list list \<Rightarrow> event list \<Rightarrow>
   coverage_map list \<times> usage_list list \<times> event list" where
  "summary_read_usage env date allCoverage allUsage trace =
     (case usage_file env date of
        Absent \<Rightarrow> (allCoverage, allUsage, trace @ [ExistsSync (UsageFile date)])
      | Malformed \<Rightarrow>
          (allCoverage, allUsage,
           trace @ [ExistsSync (UsageFile date), ReadFileSync (UsageFile date), ConsoleWarn date])
      | Content use \<Rightarrow>
          (allCoverage, allUsage @ [use],
           trace @ [ExistsSync (UsageFile date), ReadFileSync (UsageFile date)]))"

definition summary_read_day ::
  "env \<Rightarrow> coverage_map list \<times> usage_list list \<times> event list \<Rightarrow> string \<Rightarrow>
   coverage_map list \<times> usage_list list \<times> event list" where
  "summary_read_day env st date =
     (case st of (allCoverage, allUsage, trace) \<Rightarrow>
        (case coverage_file env date of
           Absent \<Rightarrow>
             summary_read_usage env date allCoverage allUsage
               (trace @ [ExistsSync (CoverageFile date)])
         | Malformed \<Rightarrow>
             (allCoverage, allUsage,
              trace @ [ExistsSync (CoverageFile date), ReadFileSync (CoverageFile date),
                     ConsoleWarn date])
         | Content cov \<Rightarrow>
             summary_read_usage env date (allCoverage @ [cov]) allUsage
               (trace @ [ExistsSync (CoverageFile date), ReadFileSync (CoverageFile date)])))"

text \<open>
  A query parameter is \<open>None\<close> when the request does not carry it; \<open>!start\<close> also holds
  for the empty string. \<open>generateDateRange\<close> returns its \<open>Error\<close> object instead of
  throwing it, and \<open>for (const date of inRange)\<close> then throws a \<open>TypeError\<close>, which the
  outer \<open>catch\<close> answers. The handler has no result when the loop of
  \<open>generateDateRange\<close> does not end.
\<close>

definition summary_handler ::
  "env \<Rightarrow> string option \<Rightarrow> string option \<Rightarrow> (response \<times> event list) option" where
  "summary_handler env start end =
     (case (start, end) of
        (Some s, Some e) \<Rightarrow>
          if s = [] \<or> e = []
          then Some (\<lparr>status = 400, body = ErrorBody ''Missing start or end date''\<rparr>, [ConsoleLog])
          else
            (case generateDateRange (LocalTZA env) s e of
               None \<Rightarrow> None
             | Some InvalidDate \<Rightarrow> Some (internal_error [ConsoleLog])
             | Some (Dates inRange) \<Rightarrow>
                 (case foldl (summary_read_day env) ([], [], [ConsoleLog]) inRange of
                    (allCoverage, allUsage, trace) \<Rightarrow>
                      Some (\<lparr>status = 200,
                             body = SummaryBody (calculateSummary allCoverage allUsage)\<rparr>, trace)))
      | _ \<Rightarrow> Some (\<lparr>status = 400, body = ErrorBody ''Missing start or end date''\<rparr>, [ConsoleLog]))"

subsection \<open>\<open>GET /api/coverage-usage\<close> and \<open>GET /api/apis\<close>\<close>

text \<open>
  Both handlers read the two files of one day in the same way, with no \<open>try\<close> of their
  own: a missing file stands for \<open>{}\<close> or \<open>[]\<close>, and a \<open>SyntaxError\<close> of \<open>JSON.parse\<close>
  reaches the outer \<open>catch\<close>.
\<close>

definition read_day ::
  "env \<Rightarrow> string \<Rightarrow> (exn + coverage_map \<times> usage_list) \<times> event list" where
  "read_day env date =
     (case coverage_file env date of
        Malformed \<Rightarrow>
          (Inl SyntaxError, [ExistsSync (CoverageFile date), ReadFileSync (CoverageFile date)])
      | c \<Rightarrow>
          (let cov = (case c of Content m \<Rightarrow> m | _ \<Rightarrow> []);
               trace = (case c of
                        Content m \<Rightarrow>
                          [ExistsSync (CoverageFile date), ReadFileSync (CoverageFile date)]
                      | _ \<Rightarrow> [ExistsSync (CoverageFile date)])
           in case usage_file env date of
                Absent \<Rightarrow> (Inr (cov, []), trace @ [ExistsSync (UsageFile date)])
              | Malformed \<Rightarrow>
                  (Inl SyntaxError,
                   trace @ [ExistsSync (UsageFile date), ReadFileSync (UsageFile date)])
              | Content use \<Rightarrow>
                  (Inr (cov, use),
                   trace @ [ExistsSync (UsageFile date), ReadFileSync (UsageFile date)])))"

definition scatter_point_of :: "usage_list \<Rightarrow> string \<times> coverage_record \<Rightarrow> scatter_point" where
  "scatter_point_of use entry =
     (case entry of (name, api) \<Rightarrow>
        (let coveragePercent = coverage_percent api;
             usageItem = findUsage use name;
             usageCount = (case usageItem of Some u \<Rightarrow> Number (usage_count u) | None \<Rightarrow> Finite 0)
         in \<lparr>sp_name = name, sp_coverage = coveragePercent, sp_usage = usageCount\<rparr>))"

definition coverage_usage_handler :: "env \<Rightarrow> string option \<Rightarrow> response \<times> event list" where
  "coverage_usage_handler env date =
     (case date of
        None \<Rightarrow> (\<lparr>status = 400, body = ErrorBody ''Missing date''\<rparr>, [])
      | Some d \<Rightarrow>
          if d = [] then (\<lparr>status = 400, body = ErrorBody ''Missing date''\<rparr>, [])
          else
            (case read_day env d of
               (Inl err, trace) \<Rightarrow> internal_error trace
             | (Inr (cov, use), trace) \<Rightarrow>
                 (\<lparr>status = 200, body = ScatterBody (map (scatter_point_of use) cov)\<rparr>, trace)))"

definition api_row_of :: "usage_list \<Rightarrow> string \<times> coverage_record \<Rightarrow> api_row" where
  "api_row_of use entry =
     (case entry of (name, api) \<Rightarrow>
        (let usageItem = findUsage use name;
             usageCount = (case usageItem of Some u \<Rightarrow> Number (usage_count u) | None \<Rightarrow> Finite 0);
             totalClients =
               (case usageItem of Some u \<Rightarrow> Number (total_clients u) | None \<Rightarrow> Finite 0)
         in \<lparr>row_name = name,
             row_coverage = toFixed1 (coverage_percent api),
             row_usage = usageCount,
             row_totalClients = totalClients,
             row_apidoc = apidoc api,
             row_fullSize = full_size api,
             row_coveredLines = covered_lines api\<rparr>))"

definition apis_handler :: "env \<Rightarrow> string option \<Rightarrow> response \<times> event list" where
  "apis_handler env date =
     (case date of
        None \<Rightarrow> (\<lparr>status = 400, body = ErrorBody ''Missing date''\<rparr>, [])
      | Some d \<Rightarrow>
          if d = [] then (\<lparr>status = 400, body = ErrorBody ''Missing date''\<rparr>, [])
          else
            (case read_day env d of
               (Inl err, trace) \<Rightarrow> internal_error trace
             | (Inr (cov, use), trace) \<Rightarrow>
                 (\<lparr>status = 200, body = TableBody (map (api_row_of use) cov)\<rparr>, trace)))"

subsection \<open>\<open>GET /api/coverage-trends\<close>\<close>

text \<open>The point of one day: the total of the percentages over the number of names.\<close>

definition trend_point_of :: "string \<Rightarrow> coverage_map \<Rightarrow> trend_point" where
  "trend_point_of date cov =
     (let totalCoverage =
            foldl (\<lambda>total entry. js_add total (coverage_percent (snd entry))) (Finite 0) cov
      in \<lparr>tp_date = date,
          tp_avgCoverage = js_div totalCoverage (Finite (of_nat (length (Object_keys cov))))\<rparr>)"

fun trends_loop ::
  "env \<Rightarrow> string list \<Rightarrow> trend_point list \<Rightarrow> event list \<Rightarrow>
   (exn + trend_point list) \<times> event list" where
  "trends_loop env [] trends trace = (Inr trends, trace)"
| "trends_loop env (date # rest) trends trace =
     (case coverage_file env date of
        Absent \<Rightarrow> trends_loop env rest trends (trace @ [ExistsSync (CoverageFile date)])
      | Malformed \<Rightarrow>
          (Inl SyntaxError,
           trace @ [ExistsSync (CoverageFile date), ReadFileSync (CoverageFile date)])
      | Content cov \<Rightarrow>
          if length (Object_keys cov) = 0
          then trends_loop env rest trends
                 (trace @ [ExistsSync (CoverageFile date), ReadFileSync (CoverageFile date)])
          else trends_loop env rest (trends @ [trend_point_of date cov])
                 (trace @ [ExistsSync (CoverageFile date), ReadFileSync (CoverageFile date)]))"

definition trends_handler ::
  "env \<Rightarrow> string option \<Rightarrow> string option \<Rightarrow> (response \<times> event list) option" where
  "trends_handler env start end =
     (case (start, end) of
        (Some s, Some e) \<Rightarrow>
          if s = [] \<or> e = []
          then Some (\<lparr>status = 400, body = ErrorBody ''Missing start or end date''\<rparr>, [])
          else
            (case generateDateRange (LocalTZA env) s e of
               None \<Rightarrow> None
             | Some InvalidDate \<Rightarrow> Some (internal_error [])
             | Some (Dates inRange) \<Rightarrow>
                 (case trends_loop env inRange [] [] of
                    (Inl err, trace) \<Rightarrow> Some (internal_error trace)
                  | (Inr trends, trace) \<Rightarrow>
                      Some (\<lparr>status = 200, body = TrendsBody trends\<rparr>, trace)))
      | _ \<Rightarrow> Some (\<lparr>status = 400, body = ErrorBody ''Missing start or end date''\<rparr>, []))"

subsection \<open>Calendar dates, for stating properties\<close>

text \<open>
  The notions the statements about \<open>generateDateRange\<close> are written in; the program does
  not use them. A valid date is a day of the Gregorian calendar in the years 0 to 9999,
  which is what the form \<open>YYYY-MM-DD\<close> can name; \<open>ymd_string\<close> is its day key;
  \<open>day_number\<close> counts its days since 1970-01-01, so that the difference of two day
  numbers is the distance of the dates in days; \<open>day_key n\<close> is the key that the loop
  pushes for day number \<open>n\<close>.
\<close>

definition DaysInMonth :: "int \<Rightarrow> int \<Rightarrow> int" where
  "DaysInMonth y m =
     (if m = 2 then (if DaysInYear y = 366 then 29 else 28)
      else if m = 4 \<or> m = 6 \<or> m = 9 \<or> m = 11 then 30
      else 31)"

definition valid_date :: "int \<Rightarrow> int \<Rightarrow> int \<Rightarrow> bool" where
  "valid_date y m d =
     (0 \<le> y \<and> y \<le> 9999 \<and> 1 \<le> m \<and> m \<le> 12 \<and> 1 \<le> d \<and> d \<le> DaysInMonth y m)"

definition ymd_string :: "int \<Rightarrow> int \<Rightarrow> int \<Rightarrow> string" where
  "ymd_string y m d = pad 4 (nat y) @ ''-'' @ pad 2 (nat m) @ ''-'' @ pad 2 (nat d)"

definition day_number :: "int \<Rightarrow> int \<Rightarrow> int \<Rightarrow> int" where
  "day_number y m d = MakeDay y (m - 1) d"

definition day_key :: "int \<Rightarrow> string" where
  "day_key n = split_T_first (toISOString (n * msPerDay))"

subsection \<open>The snapshot of a day, for stating properties\<close>

text \<open>The coverage map and the usage list of a day: empty when the file is not loaded.\<close>

definition day_coverage :: "env \<Rightarrow> string \<Rightarrow> coverage_map" where
  "day_coverage env d = (case coverage_file env d of Content cov \<Rightarrow> cov | _ \<Rightarrow> [])"

definition day_usage :: "env \<Rightarrow> string \<Rightarrow> usage_list" where
  "day_usage env d = (case usage_file env d of Content use \<Rightarrow> use | _ \<Rightarrow> [])"


subsection \<open>Environments of the examples\<close>

text \<open>A process in UTC.\<close>

definition utc_zone :: "int \<Rightarrow> bool \<Rightarrow> int" where
  "utc_zone t isUTC = 0"


text \<open>No file at all, and usage files without coverage files.\<close>

definition empty_env :: env where
  "empty_env = \<lparr>LocalTZA = utc_zone, coverage_file = (\<lambda>d. Absent), usage_file = (\<lambda>d. Absent)\<rparr>"

definition usage_only_env :: env where
  "usage_only_env =
     \<lparr>LocalTZA = utc_zone,
      coverage_file = (\<lambda>d. Absent),
      usage_file =
        (\<lambda>d. Content [\<lparr>api_name = ''A'', usage_count = JNum 7, total_clients = JNum 1\<rparr>])\<rparr>"

text \<open>
  Coverage and usage for \<open>A\<close> on 2024-01-01, and on 2024-01-02 usage for \<open>A\<close> with no
  coverage file.
\<close>

definition two_day_env :: env where
  "two_day_env =
     \<lparr>LocalTZA = utc_zone,
      coverage_file =
        (\<lambda>d. if d = ''2024-01-01''
             then Content [(''A'', \<lparr>full_size = 100, covered_lines = 50, apidoc = ''a''\<rparr>)]
             else Absent),
      usage_file =
        (\<lambda>d. if d = ''2024-01-01''
             then Content [\<lparr>api_name = ''A'', usage_count = JNum 10, total_clients = JNum 1\<rparr>]
             else if d = ''2024-01-02''
             then Content [\<lparr>api_name = ''A'', usage_count = JNum 5, total_clients = JNum 1\<rparr>]
             else Absent)\<rparr>"

text \<open>A coverage file on every day, the one of 2024-01-03 not valid JSON.\<close>

definition malformed_day_env :: env where
  "malformed_day_env =
     \<lparr>LocalTZA = utc_zone,
      coverage_file =
        (\<lambda>d. if d = ''2024-01-03'' then Malformed
             else Content [(''A'', \<lparr>full_size = 100, covered_lines = 50, apidoc = ''a''\<rparr>)]),
      usage_file = (\<lambda>d. Absent)\<rparr>"



text \<open>Two records of size zero.\<close>

definition zero_size_env :: env where
  "zero_size_env =
     \<lparr>LocalTZA = utc_zone,
      coverage_file =
        (\<lambda>d. if d = ''2024-01-01''
             then Content [(''A'', \<lparr>full_size = 0, covered_lines = 0, apidoc = ''a''\<rparr>),
                           (''B'', \<lparr>full_size = 0, covered_lines = 7, apidoc = ''b''\<rparr>)]
             else Absent),
      usage_file = (\<lambda>d. Absent)\<rparr>"



section \<open>The calendar\<close>

lemma div_succ:
  fixes x c :: int
  assumes "0 < c"
  shows "(x + 1) div c = x div c + (if (x + 1) mod c = 0 then 1 else 0)"
proof (cases "x mod c = c - 1")
  case True
  have "x = c * (x div c) + x mod c" by simp
  then have eq: "x + 1 = c * (x div c + 1) + 0"
    using True by (simp add: algebra_simps)
  have d: "(x + 1) div c = x div c + 1"
    by (rule int_div_pos_eq [OF eq]) (use assms in auto)
  have m: "(x + 1) mod c = 0"
    by (rule int_mod_pos_eq [OF eq]) (use assms in auto)
  show ?thesis using d m by simp
next
  case False
  have r: "0 \<le> x mod c" "x mod c < c" using assms by auto
  have "x = c * (x div c) + x mod c" by simp
  then have eq: "x + 1 = c * (x div c) + (x mod c + 1)" by simp
  have lt: "x mod c + 1 < c" using r False by linarith
  have d: "(x + 1) div c = x div c"
    by (rule int_div_pos_eq [OF eq]) (use r lt in auto)
  have m: "(x + 1) mod c = x mod c + 1"
    by (rule int_mod_pos_eq [OF eq]) (use r lt in auto)
  show ?thesis using d m r by simp
qed

lemma mod_shift: "(y - c * k) mod c = y mod c" for y c k :: int
  by (metis mod_mult_self2 uminus_add_conv_diff add.commute mult_minus_right)

lemma DayFromYear_step: "DayFromYear (y + 1) = DayFromYear y + DaysInYear y"
proof -
  have a: "(y + 1 - 1969) div 4 = (y - 1969) div 4 + (if y mod 4 = 0 then 1 else 0)"
    using div_succ [of 4 "y - 1969"] mod_shift [of y 4 492] by (simp add: algebra_simps)
  have b: "(y + 1 - 1901) div 100 = (y - 1901) div 100 + (if y mod 100 = 0 then 1 else 0)"
    using div_succ [of 100 "y - 1901"] mod_shift [of y 100 19] by (simp add: algebra_simps)
  have c: "(y + 1 - 1601) div 400 = (y - 1601) div 400 + (if y mod 400 = 0 then 1 else 0)"
    using div_succ [of 400 "y - 1601"] mod_shift [of y 400 4] by (simp add: algebra_simps)
  have m1: "y mod 100 = 0 \<Longrightarrow> y mod 4 = 0"
    using mod_mod_cancel [of 4 100 y] by simp
  have m2: "y mod 400 = 0 \<Longrightarrow> y mod 100 = 0"
    using mod_mod_cancel [of 100 400 y] by simp
  show ?thesis
    unfolding DayFromYear_def DaysInYear_def a b c using m1 m2 by auto
qed


lemma DaysInYear_bounds: "365 \<le> DaysInYear y" "DaysInYear y \<le> 366"
  by (simp_all add: DaysInYear_def)

lemma DayFromYear_mono_aux: "DayFromYear y + 365 * int k \<le> DayFromYear (y + int k)"
proof (induction k)
  case 0
  show ?case by simp
next
  case (Suc k)
  have e: "y + int (Suc k) = (y + int k) + 1" by simp
  have "DayFromYear (y + int (Suc k)) = DayFromYear (y + int k) + DaysInYear (y + int k)"
    unfolding e by (rule DayFromYear_step)
  then show ?case using Suc DaysInYear_bounds(1) [of "y + int k"] by simp
qed

lemma DayFromYear_less: 
  assumes "y < y'" 
  shows "DayFromYear y < DayFromYear y'"
proof -
  obtain k where k: "y' = y + int k" "0 < k"
    using assms by (metis zless_iff_Suc_zadd zero_less_Suc)
  show ?thesis using DayFromYear_mono_aux [of y k] k by simp
qed

lemma DayFromYear_le: "y \<le> y' \<Longrightarrow> DayFromYear y \<le> DayFromYear y'"
  using DayFromYear_less [of y y'] by (cases "y = y'") auto

lemma scan_year_spec:
  "DayFromYear y \<le> d \<Longrightarrow> d < DayFromYear (y + int k + 1) \<Longrightarrow>
   DayFromYear (scan_year d y k) \<le> d \<and> d < DayFromYear (scan_year d y k + 1)"
proof (induction k arbitrary: y)
  case 0
  then show ?case by simp
next
  case (Suc k)
  show ?case
  proof (cases "DayFromYear (y + 1) \<le> d")
    case True
    have "d < DayFromYear (y + 1 + int k + 1)" using Suc.prems(2) by (simp add: add.commute add.left_commute)
    from Suc.IH [OF True this] True show ?thesis by simp
  next
    case False
    then show ?thesis using Suc.prems(1) by simp
  qed
qed

lemma div_lower: "0 < c \<Longrightarrow> c * (x div c) \<le> x" for x c :: int
  using mult_div_mod_eq [of c x] pos_mod_sign [of c x] by linarith

lemma div_upper: "0 < c \<Longrightarrow> x < c * (x div c) + c" for x c :: int
  using mult_div_mod_eq [of c x] pos_mod_bound [of c x] by linarith

lemma DayFromYear_upper_aux:
  "4 * a \<le> k + 1 \<Longrightarrow> k + 69 < 100 * b + 100 \<Longrightarrow> 400 * c \<le> k + 369 \<Longrightarrow>
   400 * (365 * k + a - b + c) < 146097 * k + (593::int)"
  by (simp add: algebra_simps)

lemma DayFromYear_lower_aux:
  "k + 1 < 4 * a + 4 \<Longrightarrow> 100 * b \<le> k + 69 \<Longrightarrow> k + 369 < 400 * c + 400 \<Longrightarrow>
   146097 * k - 607 < 400 * (365 * k + a - b + c :: int)"
  by (simp add: algebra_simps)

lemma DayFromYear_shape:
  "DayFromYear (1970 + k) = 365 * k + (k + 1) div 4 - (k + 69) div 100 + (k + 369) div 400"
  by (simp add: DayFromYear_def add.commute)

lemma DayFromYear_upper: "400 * DayFromYear (1970 + k) < 146097 * k + 593"
  unfolding DayFromYear_shape
  by (rule DayFromYear_upper_aux) (rule div_lower div_upper, simp)+

lemma DayFromYear_lower: "146097 * k - 607 < 400 * DayFromYear (1970 + k)"
  unfolding DayFromYear_shape
  by (rule DayFromYear_lower_aux) (rule div_lower div_upper, simp)+

lemma year_lo_aux:
  "400 * D < 146097 * m - 145504 \<Longrightarrow> m \<le> p \<Longrightarrow> m \<le> q \<Longrightarrow>
   365 * p \<le> d \<Longrightarrow> d < 365 * p + 365 \<Longrightarrow> 366 * q \<le> d \<Longrightarrow> d < 366 * q + 366 \<Longrightarrow>
   D \<le> (d::int)"
  by (cases "0 \<le> d") linarith+

lemma year_hi_aux:
  "146097 * m + 291587 < 400 * D \<Longrightarrow> p \<le> m \<Longrightarrow> q \<le> m \<Longrightarrow>
   365 * p \<le> d \<Longrightarrow> d < 365 * p + 365 \<Longrightarrow> 366 * q \<le> d \<Longrightarrow> d < 366 * q + 366 \<Longrightarrow>
   (d::int) < D"
  by (cases "0 \<le> d") linarith+

lemma year_lo: "DayFromYear (1970 + min (d div 365) (d div 366) - 1) \<le> d"
proof -
  have e: "1970 + min (d div 365) (d div 366) - 1 = 1970 + (min (d div 365) (d div 366) - 1)"
    by simp
  have h: "400 * DayFromYear (1970 + (min (d div 365) (d div 366) - 1))
      < 146097 * min (d div 365) (d div 366) - 145504"
    using DayFromYear_upper [of "min (d div 365) (d div 366) - 1"]
    by (simp add: right_diff_distrib)
  show ?thesis
    unfolding e
    by (rule year_lo_aux [OF h min.cobounded1 min.cobounded2])
       (rule div_lower div_upper, simp)+
qed

lemma year_hi: "d < DayFromYear (1970 + max (d div 365) (d div 366) + 1 + 1)"
proof -
  have e: "1970 + max (d div 365) (d div 366) + 1 + 1 = 1970 + (max (d div 365) (d div 366) + 2)"
    by simp
  have h: "146097 * max (d div 365) (d div 366) + 291587
      < 400 * DayFromYear (1970 + (max (d div 365) (d div 366) + 2))"
    using DayFromYear_lower [of "max (d div 365) (d div 366) + 2"]
    by (simp add: distrib_left)
  show ?thesis
    unfolding e
    by (rule year_hi_aux [OF h max.cobounded1 max.cobounded2])
       (rule div_lower div_upper, simp)+
qed

lemma YearFromDay_spec:
  "DayFromYear (YearFromDay d) \<le> d \<and> d < DayFromYear (YearFromDay d + 1)"
proof -
  define lo where "lo = 1970 + min (d div 365) (d div 366) - 1"
  define hi where "hi = 1970 + max (d div 365) (d div 366) + 1"
  have le: "lo \<le> hi" unfolding lo_def hi_def by simp
  have a: "DayFromYear lo \<le> d" unfolding lo_def by (rule year_lo)
  have "lo + int (nat (hi - lo)) + 1 = hi + 1" using le by simp
  then have b: "d < DayFromYear (lo + int (nat (hi - lo)) + 1)"
    using year_hi [of d] unfolding hi_def by simp
  show ?thesis
    using scan_year_spec [OF a b] unfolding YearFromDay_def Let_def lo_def hi_def .
qed

lemma YearFromDay_unique:
  assumes "DayFromYear y \<le> d" "d < DayFromYear (y + 1)"
  shows "YearFromDay d = y"
proof (rule ccontr)
  assume ne: "YearFromDay d \<noteq> y"
  show False
  proof (cases "YearFromDay d < y")
    case True
    then have "DayFromYear (YearFromDay d + 1) \<le> DayFromYear y"
      by (intro DayFromYear_le) simp
    then show False using YearFromDay_spec [of d] assms by linarith
  next
    case False
    then have "DayFromYear (y + 1) \<le> DayFromYear (YearFromDay d)"
      using ne by (intro DayFromYear_le) simp
    then show False using YearFromDay_spec [of d] assms by linarith
  qed
qed



lemma MonthFromTime_range: "0 \<le> MonthFromTime t \<and> MonthFromTime t \<le> 11"
  by (simp add: MonthFromTime_def month_of_day_def)

lemma MakeDay_inverse:
  "MakeDay (YearFromTime t) (MonthFromTime t) (DateFromTime t + k) = Day t + k"
proof -
  have r: "0 \<le> MonthFromTime t" "MonthFromTime t < 12"
    using MonthFromTime_range [of t] by simp_all
  have d: "MonthFromTime t div 12 = 0" using r by simp
  have m: "MonthFromTime t mod 12 = MonthFromTime t" using r by simp
  show ?thesis
    by (simp add: MakeDay_def d m DateFromTime_def DayWithinYear_def InLeapYear_def)
qed

lemma setDate_next_fixed:
  assumes "\<And>t b. tza t b = c"
  shows "setDate tza t (getDate tza t + 1) = TimeClip (t + msPerDay)"
proof -
  have "MakeDate (Day (t + c) + 1) (TimeWithinDay (t + c)) = t + c + msPerDay"
    by (simp add: MakeDate_def Day_def TimeWithinDay_def algebra_simps)
  then show ?thesis
    by (simp add: setDate_def getDate_def LocalTime_def UTC_def assms MakeDay_inverse)
qed

lemma date_loop_fixed:
  assumes tz: "\<And>t b. tza t b = c"
  shows "e < s + int n * msPerDay \<Longrightarrow> (n = 0 \<or> s + (int n - 1) * msPerDay \<le> e) \<Longrightarrow>
         \<bar>s\<bar> + int n * msPerDay \<le> 8640000000000000 \<Longrightarrow>
         date_loop tza (Some s) e acc =
           Some (acc @ map (\<lambda>k. split_T_first (toISOString (s + int k * msPerDay))) [0..<n])"
proof (induction n arbitrary: s acc)
  case 0
  then show ?case by (subst date_loop.simps) simp
next
  case (Suc n)
  have pos: "0 < msPerDay" by (simp add: msPerDay_def)
  have "0 \<le> int n * msPerDay" using pos by simp
  then have le: "s \<le> e" using Suc.prems(2) by simp
  have nn: "0 \<le> int n * msPerDay" using pos by simp
  have e3: "\<bar>s\<bar> + int n * msPerDay + msPerDay \<le> 8640000000000000"
    using Suc.prems(3) by (simp add: algebra_simps)
  have "\<bar>s + msPerDay\<bar> \<le> 8640000000000000" using e3 pos nn by linarith
  then have clip: "TimeClip (s + msPerDay) = Some (s + msPerDay)"
    by (simp add: TimeClip_def)
  have e1: "e < s + int n * msPerDay + msPerDay"
    using Suc.prems(1) by (simp add: algebra_simps)
  have a: "e < (s + msPerDay) + int n * msPerDay"
    using e1 by linarith
  have e2: "s + int n * msPerDay \<le> e"
    using Suc.prems(2) by (simp add: algebra_simps)
  have "(s + msPerDay) + (int n - 1) * msPerDay = s + int n * msPerDay"
    by (simp add: algebra_simps)
  then have b: "n = 0 \<or> (s + msPerDay) + (int n - 1) * msPerDay \<le> e"
    using e2 by simp
  have c: "\<bar>s + msPerDay\<bar> + int n * msPerDay \<le> 8640000000000000"
    using e3 pos nn by linarith
  have m: "map (\<lambda>k. split_T_first (toISOString (s + int k * msPerDay))) [0..<Suc n] =
        split_T_first (toISOString s) #
        map (\<lambda>k. split_T_first (toISOString (s + msPerDay + int k * msPerDay))) [0..<n]"
    by (simp add: upt_conv_Cons map_Suc_upt [symmetric] algebra_simps del: upt_Suc)
  show ?case
    by (subst date_loop.simps)
       (simp only: option.case le if_True setDate_next_fixed [OF tz] clip Suc.IH [OF a b c] m,
        simp)
qed


lemma Day_times: "Day (n * msPerDay) = n"
  by (simp add: Day_def msPerDay_def)






lemma MonthFromTime_chain: "MonthFromTime t = month_of_day (DayWithinYear t) (InLeapYear t)"
  by (simp add: MonthFromTime_def)







lemma of_char_digit_char: "n < 10 \<Longrightarrow> (of_char (digit_char n) :: nat) = 48 + n"
  by (simp add: digit_char_def)



lemma pad_length: "length (pad k n) = k"
  by (induction k arbitrary: n) simp_all







lemma is_digit_digit_char: "n < 10 \<Longrightarrow> is_digit (digit_char n)"
  by (simp add: is_digit_def of_char_digit_char)

lemma digit_val_digit_char: "n < 10 \<Longrightarrow> digit_val (digit_char n) = n"
  by (simp add: digit_val_def of_char_digit_char)

lemma pad_digits: "list_all is_digit (pad k n)"
  by (induction k arbitrary: n) (simp_all add: is_digit_digit_char)

lemma digits_val_snoc: "digits_val (xs @ [c]) = 10 * digits_val xs + digit_val c"
  by (simp add: digits_val_def)

lemma digits_val_pad: "digits_val (pad k n) = n mod 10 ^ k"
proof (induction k arbitrary: n)
  case 0
  show ?case by (simp add: digits_val_def)
next
  case (Suc k)
  show ?case
    by (simp add: digits_val_snoc Suc.IH digit_val_digit_char mod_mult2_eq)
qed

lemma not_T_digit: "is_digit c \<Longrightarrow> c \<noteq> CHR ''T''"
  by (auto simp: is_digit_def)

lemma pad_no_T: "c \<in> set (pad k n) \<Longrightarrow> c \<noteq> CHR ''T''"
  using pad_digits [of k n] not_T_digit by (auto simp: list_all_iff)

lemma year_string_no_T: "c \<in> set (year_string y) \<Longrightarrow> c \<noteq> CHR ''T''"
  by (auto simp: year_string_def dest: pad_no_T split: if_splits)

lemma takeWhile_before:
  "(\<And>c. c \<in> set p \<Longrightarrow> c \<noteq> x) \<Longrightarrow> takeWhile (\<lambda>c. c \<noteq> x) (p @ x # r) = p"
  by (induction p) simp_all

lemma day_key_eq:
  "split_T_first (toISOString t) =
     year_string (YearFromTime t) @ ''-'' @ pad 2 (nat (MonthFromTime t + 1)) @ ''-'' @
     pad 2 (nat (DateFromTime t))"
proof -
  let ?p = "year_string (YearFromTime t) @ ''-'' @ pad 2 (nat (MonthFromTime t + 1)) @ ''-'' @
     pad 2 (nat (DateFromTime t))"
  have p: "c \<noteq> CHR ''T''" if "c \<in> set ?p" for c
    using that by (auto dest: pad_no_T year_string_no_T)
  have "\<exists>r. toISOString t = ?p @ CHR ''T'' # r"
    by (simp add: toISOString_def)
  then obtain r where e: "toISOString t = ?p @ CHR ''T'' # r" ..
  show ?thesis
    unfolding split_T_first_def e by (rule takeWhile_before) (rule p)
qed



lemma day_key_ymd:
  "0 \<le> YearFromTime t \<Longrightarrow> YearFromTime t \<le> 9999 \<Longrightarrow>
   split_T_first (toISOString t) =
     ymd_string (YearFromTime t) (MonthFromTime t + 1) (DateFromTime t)"
  by (simp add: day_key_eq year_string_def ymd_string_def)


lemma DaysInYear_cases: "DaysInYear y = 365 \<or> DaysInYear y = 366"
  by (simp add: DaysInYear_def)

lemma month_start_valid:
  assumes "1 \<le> m" "m \<le> 12" "1 \<le> d" "d \<le> DaysInMonth y m"
    and l: "l = (if DaysInYear y = 365 then 0 else 1)"
  shows "0 \<le> MonthStart (m - 1) l + d - 1 \<and> MonthStart (m - 1) l + d - 1 < 365 + l \<and>
         month_of_day (MonthStart (m - 1) l + d - 1) l = m - 1"
proof -
  note defs = MonthStart_def DaysInMonth_def month_of_day_def
  have m: "m = 1 \<or> m = 2 \<or> m = 3 \<or> m = 4 \<or> m = 5 \<or> m = 6 \<or> m = 7 \<or> m = 8 \<or> m = 9 \<or>
      m = 10 \<or> m = 11 \<or> m = 12"
    using assms(1,2) by presburger
  consider (common) "DaysInYear y = 365" "l = 0" | (leap) "DaysInYear y = 366" "l = 1"
    using l DaysInYear_cases [of y] by auto
  then show ?thesis
  proof cases
    case common
    show ?thesis
      using m assms(3,4) common by - (elim disjE, simp_all add: defs)
  next
    case leap
    show ?thesis
      using m assms(3,4) leap by - (elim disjE, simp_all add: defs)
  qed
qed

lemma civil_roundtrip:
  assumes v: "valid_date y m d"
  shows "YearFromTime (day_number y m d * msPerDay) = y \<and>
         MonthFromTime (day_number y m d * msPerDay) = m - 1 \<and>
         DateFromTime (day_number y m d * msPerDay) = d"
proof -
  define l :: int where "l = (if DaysInYear y = 365 then 0 else 1)"
  define w where "w = MonthStart (m - 1) l + d - 1"
  define t where "t = day_number y m d * msPerDay"
  have b: "1 \<le> m" "m \<le> 12" "1 \<le> d" "d \<le> DaysInMonth y m"
    using v by (simp_all add: valid_date_def)
  have dm: "(m - 1) div 12 = 0" "(m - 1) mod 12 = m - 1" using b by simp_all
  have n: "day_number y m d = DayFromYear y + w"
    by (simp add: day_number_def MakeDay_def dm l_def w_def)
  have w: "0 \<le> w" "w < 365 + l" "month_of_day w l = m - 1"
    using month_start_valid [OF b l_def] by (simp_all add: w_def)
  have dy: "DaysInYear y = 365 + l" by (simp add: l_def DaysInYear_def)
  have day: "Day t = DayFromYear y + w" by (simp add: t_def Day_times n)
  have yr: "YearFromTime t = y"
    unfolding YearFromTime_def day
    using w dy DayFromYear_step [of y] by (intro YearFromDay_unique) simp_all
  have lp: "InLeapYear t = l" by (simp add: InLeapYear_def yr l_def)
  have dw: "DayWithinYear t = w" by (simp add: DayWithinYear_def yr day)
  have mo: "MonthFromTime t = m - 1" by (simp add: MonthFromTime_chain dw lp w)
  have da: "DateFromTime t = d" by (simp add: DateFromTime_def dw lp mo w_def)
  show ?thesis using yr mo da by (simp add: t_def)
qed

lemma valid_date_day_le: "valid_date y m d \<Longrightarrow> d \<le> 31"
  by (auto simp: valid_date_def DaysInMonth_def split: if_splits)

lemma day_key_day_number:
  assumes "valid_date y m d"
  shows "day_key (day_number y m d) = ymd_string y m d"
  using civil_roundtrip [OF assms] assms
  by (simp add: day_key_def day_key_ymd valid_date_def)

lemma day_number_range:
  assumes "valid_date y m d"
  shows "- 719528 \<le> day_number y m d \<and> day_number y m d \<le> 2932897"
proof -
  define l :: int where "l = (if DaysInYear y = 365 then 0 else 1)"
  have b: "1 \<le> m" "m \<le> 12" "1 \<le> d" "d \<le> DaysInMonth y m" "0 \<le> y" "y \<le> 9999"
    using assms by (simp_all add: valid_date_def)
  have dm: "(m - 1) div 12 = 0" "(m - 1) mod 12 = m - 1" using b by simp_all
  have n: "day_number y m d = DayFromYear y + (MonthStart (m - 1) l + d - 1)"
    by (simp add: day_number_def MakeDay_def dm l_def)
  have w: "0 \<le> MonthStart (m - 1) l + d - 1" "MonthStart (m - 1) l + d - 1 < 365 + l"
    using month_start_valid [OF b(1-4) l_def] by simp_all
  have l: "l \<le> 1" by (simp add: l_def)
  have lo: "DayFromYear 0 \<le> DayFromYear y" using b by (intro DayFromYear_le) simp
  have hi: "DayFromYear y \<le> DayFromYear 9999" using b by (intro DayFromYear_le) simp
  have c: "DayFromYear 0 = - 719528" "DayFromYear 9999 = 2932532"
    by (simp_all add: DayFromYear_def)
  show ?thesis using n w l lo hi c by linarith
qed


lemma ms_bound:
  "- 719528 \<le> n \<Longrightarrow> n \<le> 2932897 \<Longrightarrow> \<bar>n * msPerDay\<bar> \<le> 253402300800000"
  unfolding msPerDay_def abs_le_iff by linarith

lemma ymd_layout:
  assumes "length a = 4" "length b = 2" "length c = 2"
  shows "length (a @ x # b @ y # c) = 10 \<and> (a @ x # b @ y # c) ! 4 = x \<and>
         (a @ x # b @ y # c) ! 7 = y \<and> take 4 (a @ x # b @ y # c) = a \<and>
         take 2 (drop 5 (a @ x # b @ y # c)) = b \<and> drop 8 (a @ x # b @ y # c) = c"
  using assms by (simp add: nth_append)

lemma Date_parse_ymd:
  assumes v: "valid_date y m d"
  shows "Date_parse (ymd_string y m d) = Some (day_number y m d * msPerDay)"
proof -
  have b: "0 \<le> y" "y \<le> 9999" "1 \<le> m" "m \<le> 12" "1 \<le> d" "d \<le> 31"
    using v valid_date_day_le [OF v] by (simp_all add: valid_date_def)
  have s: "ymd_string y m d = pad 4 (nat y) @ CHR ''-'' # pad 2 (nat m) @ CHR ''-'' # pad 2 (nat d)"
    by (simp add: ymd_string_def)
  have vy: "int (digits_val (pad 4 (nat y))) = y"
    using b by (simp add: digits_val_pad)
  have vm: "int (digits_val (pad 2 (nat m))) = m"
    using b by (simp add: digits_val_pad)
  have vd: "int (digits_val (pad 2 (nat d))) = d"
    using b by (simp add: digits_val_pad)
  have r: "\<bar>day_number y m d * msPerDay\<bar> \<le> 8640000000000000"
    using day_number_range [OF v] ms_bound [of "day_number y m d"] by linarith
  have L: "length (pad 4 (nat y) @ CHR ''-'' # pad 2 (nat m) @ CHR ''-'' # pad 2 (nat d)) = 10"
    "(pad 4 (nat y) @ CHR ''-'' # pad 2 (nat m) @ CHR ''-'' # pad 2 (nat d)) ! 4 = CHR ''-''"
    "(pad 4 (nat y) @ CHR ''-'' # pad 2 (nat m) @ CHR ''-'' # pad 2 (nat d)) ! 7 = CHR ''-''"
    "take 4 (pad 4 (nat y) @ CHR ''-'' # pad 2 (nat m) @ CHR ''-'' # pad 2 (nat d)) = pad 4 (nat y)"
    "take 2 (drop 5 (pad 4 (nat y) @ CHR ''-'' # pad 2 (nat m) @ CHR ''-'' # pad 2 (nat d))) =
       pad 2 (nat m)"
    "drop 8 (pad 4 (nat y) @ CHR ''-'' # pad 2 (nat m) @ CHR ''-'' # pad 2 (nat d)) = pad 2 (nat d)"
    using ymd_layout [OF pad_length pad_length pad_length,
        of "nat y" "CHR ''-''" "nat m" "CHR ''-''" "nat d"]
    by blast+
  show ?thesis
    unfolding Date_parse_def s L vy vm vd Let_def
    using b r by (simp add: pad_digits TimeClip_def MakeDate_def day_number_def)
qed

lemma upt_upto: "map (\<lambda>k. a + int k) [0..<n] = [a..a + int n - 1]"
  by (rule nth_equalityI) simp_all






lemma date_loop_stop: "e < s \<Longrightarrow> date_loop tza (Some s) e acc = Some acc"
  by (subst date_loop.simps) simp

lemma date_loop_days:
  assumes tz: "\<And>t b. tza t b = c"
    and ra: "- 719528 \<le> a" "a \<le> 2932897" and rb: "- 719528 \<le> b" "b \<le> 2932897"
  shows "date_loop tza (Some (a * msPerDay)) (b * msPerDay) [] = Some (map day_key [a..b])"
proof (cases "a \<le> b")
  case False
  then have "b * msPerDay < a * msPerDay" by (simp add: msPerDay_def)
  then show ?thesis using False by (simp add: date_loop_stop)
next
  case ab: True
  define n where "n = nat (b - a + 1)"
  have n: "int n = b - a + 1" using ab by (simp add: n_def)
  have c1: "b * msPerDay < a * msPerDay + int n * msPerDay"
    by (simp add: n msPerDay_def)
  have c2: "n = 0 \<or> a * msPerDay + (int n - 1) * msPerDay \<le> b * msPerDay"
    by (simp add: n msPerDay_def)
  have "int n \<le> 3652426" using ra rb n by linarith
  then have "int n * msPerDay \<le> 3652426 * 86400000"
    unfolding msPerDay_def by linarith
  then have c3: "\<bar>a * msPerDay\<bar> + int n * msPerDay \<le> 8640000000000000"
    using ms_bound [OF ra] by linarith
  have keys: "map (\<lambda>k. split_T_first (toISOString (a * msPerDay + int k * msPerDay))) [0..<n] =
      map day_key [a..b]"
  proof -
    have "map (\<lambda>k. split_T_first (toISOString (a * msPerDay + int k * msPerDay))) [0..<n] =
        map day_key (map (\<lambda>k. a + int k) [0..<n])"
      by (simp add: day_key_def algebra_simps)
    also have "map (\<lambda>k. a + int k) [0..<n] = [a..b]"
      unfolding upt_upto by (simp add: n)
    finally show ?thesis .
  qed
  show ?thesis by (simp add: date_loop_fixed [OF tz c1 c2 c3] keys)
qed

lemma digit_val_le: "is_digit c \<Longrightarrow> digit_val c \<le> 9"
  unfolding is_digit_def digit_val_def by linarith

lemma digits_val_less: "list_all is_digit xs \<Longrightarrow> digits_val xs < 10 ^ length xs"
proof (induction xs rule: rev_induct)
  case Nil
  show ?case by (simp add: digits_val_def)
next
  case (snoc c xs)
  then have "digits_val xs < 10 ^ length xs" "digit_val c \<le> 9"
    by (simp_all add: digit_val_le)
  then show ?case by (simp add: digits_val_snoc)
qed

lemma MonthStart_range: "0 \<le> l \<Longrightarrow> l \<le> 1 \<Longrightarrow> 0 \<le> MonthStart mn l \<and> MonthStart mn l \<le> 335"
  by (simp add: MonthStart_def)

lemma Date_parse_days:
  assumes "Date_parse s = Some a"
  shows "\<exists>n. a = n * msPerDay \<and> - 719528 \<le> n \<and> n \<le> 2932897"
proof -
  define y where "y = int (digits_val (take 4 s))"
  define m where "m = int (digits_val (take 2 (drop 5 s)))"
  define d where "d = int (digits_val (drop 8 s))"
  have f: "length s = 10" "list_all is_digit (take 4 s)" "1 \<le> m" "m \<le> 12" "1 \<le> d" "d \<le> 31"
    and t: "TimeClip (MakeDate (MakeDay y (m - 1) d) 0) = Some a"
    using assms unfolding Date_parse_def y_def m_def d_def Let_def
    by (simp_all split: if_splits)
  have "digits_val (take 4 s) < 10 ^ length (take 4 s)" by (rule digits_val_less [OF f(2)])
  then have y: "0 \<le> y" "y \<le> 9999" using f(1) by (simp_all add: y_def)
  define l :: int where "l = (if DaysInYear y = 365 then 0 else 1)"
  have dm: "(m - 1) div 12 = 0" "(m - 1) mod 12 = m - 1" using f by simp_all
  have n: "MakeDay y (m - 1) d = DayFromYear y + MonthStart (m - 1) l + d - 1"
    by (simp add: MakeDay_def dm l_def)
  have ms: "0 \<le> MonthStart (m - 1) l" "MonthStart (m - 1) l \<le> 335"
    using MonthStart_range [of l "m - 1"] by (simp_all add: l_def)
  have lo: "DayFromYear 0 \<le> DayFromYear y" using y by (intro DayFromYear_le) simp
  have hi: "DayFromYear y \<le> DayFromYear 9999" using y by (intro DayFromYear_le) simp
  have c: "DayFromYear 0 = - 719528" "DayFromYear 9999 = 2932532"
    by (simp_all add: DayFromYear_def)
  have r: "- 719528 \<le> MakeDay y (m - 1) d" "MakeDay y (m - 1) d \<le> 2932897"
    using n ms lo hi c f by linarith+
  have "a = MakeDay y (m - 1) d * msPerDay"
    using t by (simp add: TimeClip_def MakeDate_def split: if_splits)
  then show ?thesis using r by blast
qed

lemma generateDateRange_fixed_parsed:
  assumes tz: "\<And>t b. tza t b = c"
    and "Date_parse s = Some a" "Date_parse e = Some b"
  shows "generateDateRange tza s e = Some (Dates (map day_key [Day a..Day b]))"
proof -
  obtain na where na: "a = na * msPerDay" "- 719528 \<le> na" "na \<le> 2932897"
    using Date_parse_days [OF assms(2)] by blast
  obtain nb where nb: "b = nb * msPerDay" "- 719528 \<le> nb" "nb \<le> 2932897"
    using Date_parse_days [OF assms(3)] by blast
  show ?thesis
    unfolding generateDateRange_def assms(2,3) na(1) nb(1)
    by (simp add: date_loop_days [OF tz na(2,3) nb(2,3)] Day_times)
qed

lemma generateDateRange_returns:
  assumes tz: "\<And>t b. tza t b = c"
  shows "\<exists>r. generateDateRange tza s e = Some r"
proof (cases "Date_parse s")
  case None
  then show ?thesis by (simp add: generateDateRange_def)
next
  case a: (Some a)
  show ?thesis
  proof (cases "Date_parse e")
    case None
    then show ?thesis by (simp add: generateDateRange_def a)
  next
    case (Some b)
    then show ?thesis using generateDateRange_fixed_parsed [OF tz a] by simp
  qed
qed

lemma generateDateRange_days:
  assumes tz: "\<And>t b. tza t b = c"
    and v1: "valid_date y1 m1 d1" and v2: "valid_date y2 m2 d2"
  shows "generateDateRange tza (ymd_string y1 m1 d1) (ymd_string y2 m2 d2) =
           Some (Dates (map day_key [day_number y1 m1 d1..day_number y2 m2 d2]))"
  using generateDateRange_fixed_parsed [OF tz Date_parse_ymd [OF v1] Date_parse_ymd [OF v2]]
  by (simp add: Day_times)





subsection \<open>Ranges of the examples\<close>

lemma key_of:
  "valid_date y m d \<Longrightarrow> day_number y m d = n \<Longrightarrow> ymd_string y m d = s \<Longrightarrow> day_key n = s"
  using day_key_day_number by blast

lemma range_of:
  assumes "valid_date y1 m1 d1" "valid_date y2 m2 d2"
    and "ymd_string y1 m1 d1 = s" "ymd_string y2 m2 d2 = e"
    and "day_number y1 m1 d1 = a" "day_number y2 m2 d2 = b" "a \<le> b"
    and "\<And>t b. tza t b = c"
  shows "generateDateRange tza s e = Some (Dates (map day_key [a..b]))"
  using generateDateRange_days [of tza c y1 m1 d1 y2 m2 d2] assms by simp

lemma pad_2: "pad 2 n = [digit_char (n div 10 mod 10), digit_char (n mod 10)]"
proof -
  have e: "(2::nat) = Suc (Suc 0)" by simp
  show ?thesis by (simp only: e pad.simps append.simps)
qed

lemma pad_4:
  "pad 4 n =
     [digit_char (n div 10 div 10 div 10 mod 10), digit_char (n div 10 div 10 mod 10),
      digit_char (n div 10 mod 10), digit_char (n mod 10)]"
proof -
  have e: "(4::nat) = Suc (Suc (Suc (Suc 0)))" by simp
  show ?thesis by (simp only: e pad.simps append.simps)
qed

lemmas date_eval =
  valid_date_def DaysInMonth_def DaysInYear_def ymd_string_def pad_2 pad_4 digit_char_def
  char_of_def bit_0 day_number_def MakeDay_def DayFromYear_def MonthStart_def

lemma jan_2024:
  "valid_date 2024 1 1" "valid_date 2024 1 2" "valid_date 2024 1 3" "valid_date 2024 1 4"
  "valid_date 2024 1 5"
  "ymd_string 2024 1 1 = ''2024-01-01''" "ymd_string 2024 1 2 = ''2024-01-02''"
  "ymd_string 2024 1 3 = ''2024-01-03''" "ymd_string 2024 1 4 = ''2024-01-04''"
  "ymd_string 2024 1 5 = ''2024-01-05''"
  "day_number 2024 1 1 = 19723" "day_number 2024 1 2 = 19724" "day_number 2024 1 3 = 19725"
  "day_number 2024 1 4 = 19726" "day_number 2024 1 5 = 19727"
  by (simp_all add: date_eval)

lemma jan_2024_keys:
  "day_key 19723 = ''2024-01-01''" "day_key 19724 = ''2024-01-02''"
  "day_key 19725 = ''2024-01-03''" "day_key 19726 = ''2024-01-04''"
  "day_key 19727 = ''2024-01-05''"
  by (rule key_of [of 2024 1 1] key_of [of 2024 1 2] key_of [of 2024 1 3] key_of [of 2024 1 4]
        key_of [of 2024 1 5], rule jan_2024, rule jan_2024, rule jan_2024)+

lemma range_jan_1_2:
  "generateDateRange utc_zone ''2024-01-01'' ''2024-01-02'' =
     Some (Dates [''2024-01-01'', ''2024-01-02''])"
  using range_of [OF jan_2024(1) jan_2024(2) jan_2024(6) jan_2024(7) jan_2024(11) jan_2024(12),
      of utc_zone 0]
  by (simp add: utc_zone_def jan_2024_keys)

lemma range_jan_1_5:
  "generateDateRange utc_zone ''2024-01-01'' ''2024-01-05'' =
     Some (Dates [''2024-01-01'', ''2024-01-02'', ''2024-01-03'', ''2024-01-04'', ''2024-01-05''])"
  using range_of [OF jan_2024(1) jan_2024(5) jan_2024(6) jan_2024(10) jan_2024(11) jan_2024(15),
      of utc_zone 0]
  by (simp add: utc_zone_def jan_2024_keys)


lemma parse_jan_2024:
  "Date_parse ''2024-01-01'' = Some 1704067200000"
  "Date_parse ''2024-01-02'' = Some 1704153600000"
  using Date_parse_ymd [OF jan_2024(1)] Date_parse_ymd [OF jan_2024(2)]
  by (simp_all add: jan_2024 msPerDay_def)









section \<open>The handlers\<close>

lemma summary_read_usage_fst:
  "fst (summary_read_usage env d covs uses tr) = covs"
  by (cases "usage_file env d") (simp_all add: summary_read_usage_def)

lemma summary_read_day_no_coverage:
  assumes "\<And>cov. coverage_file env d \<noteq> Content cov"
  shows "fst (summary_read_day env (covs, uses, tr) d) = covs"
proof (cases "coverage_file env d")
  case Absent
  then show ?thesis by (simp add: summary_read_day_def summary_read_usage_fst)
next
  case Malformed
  then show ?thesis by (simp add: summary_read_day_def)
next
  case (Content cov)
  then show ?thesis using assms by blast
qed

lemma summary_fold_no_coverage:
  assumes "\<And>d cov. d \<in> set ds \<Longrightarrow> coverage_file env d \<noteq> Content cov"
  shows "fst (foldl (summary_read_day env) st ds) = fst st"
  using assms
proof (induction ds arbitrary: st)
  case Nil
  show ?case by simp
next
  case (Cons d ds)
  obtain covs uses tr where st: "st = (covs, uses, tr)" by (cases st)
  have "fst (summary_read_day env st d) = fst st"
    unfolding st using Cons.prems by (simp add: summary_read_day_no_coverage)
  moreover have "fst (foldl (summary_read_day env) (summary_read_day env st d) ds) =
      fst (summary_read_day env st d)"
    using Cons.prems by (intro Cons.IH) simp
  ultimately show ?case by simp
qed

lemma calculateSummary_empty:
  "calculateSummary [] allUsage = \<lparr>totalAPIs = 0, avgCoverage = Finite 0, totalCalls = 0\<rparr>"
  by (simp add: calculateSummary_def)

lemma summary_handler_dates:
  assumes "generateDateRange (LocalTZA env) s e = Some (Dates ds)" "s \<noteq> []" "e \<noteq> []"
  shows "map_option fst (summary_handler env (Some s) (Some e)) =
     Some \<lparr>status = 200,
           body = SummaryBody
             (calculateSummary (fst (foldl (summary_read_day env) ([], [], [ConsoleLog]) ds))
                (fst (snd (foldl (summary_read_day env) ([], [], [ConsoleLog]) ds))))\<rparr>"
  using assms by (simp add: summary_handler_def split: prod.splits)


lemma summary_no_coverage:
  assumes "generateDateRange (LocalTZA env) s e = Some (Dates ds)" "s \<noteq> []" "e \<noteq> []"
    and "\<forall>d\<in>set ds. \<forall>cov. coverage_file env d \<noteq> Content cov"
  shows "map_option fst (summary_handler env (Some s) (Some e)) =
     Some \<lparr>status = 200,
           body = SummaryBody \<lparr>totalAPIs = 0, avgCoverage = Finite 0, totalCalls = 0\<rparr>\<rparr>"
proof -
  have "fst (foldl (summary_read_day env) ([], [], [ConsoleLog]) ds) = []"
    using assms(4) summary_fold_no_coverage [of ds env "([], [], [ConsoleLog])"] by simp
  then show ?thesis
    unfolding summary_handler_dates [OF assms(1-3)] by (simp add: calculateSummary_empty)
qed




lemma Date_parse_nonempty: "Date_parse s = Some a \<Longrightarrow> s \<noteq> []"
  by (auto simp: Date_parse_def)

lemma generateDateRange_reversed:
  assumes "Date_parse s = Some a" "Date_parse e = Some b" "b < a"
  shows "generateDateRange tza s e = Some (Dates [])"
  using assms by (simp add: generateDateRange_def date_loop.simps)


lemma trends_handler_dates:
  assumes "generateDateRange (LocalTZA env) s e = Some (Dates ds)" "s \<noteq> []" "e \<noteq> []"
  shows "map_option fst (trends_handler env (Some s) (Some e)) =
     Some (case fst (trends_loop env ds [] []) of
             Inl err \<Rightarrow> \<lparr>status = 500, body = ErrorBody ''Internal server error''\<rparr>
           | Inr trends \<Rightarrow> \<lparr>status = 200, body = TrendsBody trends\<rparr>)"
  using assms
  by (simp add: trends_handler_def internal_error_def split: prod.splits sum.splits)



lemma coverage_percent_zero_size:
  "full_size api = 0 \<Longrightarrow> coverage_percent api \<in> {NaN, Infinity, NegInfinity}"
  by (simp add: coverage_percent_def)



lemma trends_loop_spec:
  assumes "\<forall>d\<in>set ds. coverage_file env d \<noteq> Malformed"
  shows "fst (trends_loop env ds trends tr) =
     Inr (trends @ map (\<lambda>d. trend_point_of d (day_coverage env d))
                     (filter (\<lambda>d. day_coverage env d \<noteq> []) ds))"
  using assms
proof (induction ds arbitrary: trends tr)
  case Nil
  show ?case by simp
next
  case (Cons d ds)
  have ih: "fst (trends_loop env ds trends' tr') =
     Inr (trends' @ map (\<lambda>d. trend_point_of d (day_coverage env d))
                     (filter (\<lambda>d. day_coverage env d \<noteq> []) ds))" for trends' tr'
    using Cons.prems by (intro Cons.IH) simp
  show ?case
  proof (cases "coverage_file env d")
    case Absent
    then show ?thesis by (simp add: ih day_coverage_def)
  next
    case Malformed
    then show ?thesis using Cons.prems by simp
  next
    case (Content cov)
    then show ?thesis by (cases "cov = []") (simp_all add: ih day_coverage_def Object_keys_def)
  qed
qed


lemma read_day_ok:
  assumes "coverage_file env d \<noteq> Malformed" "usage_file env d \<noteq> Malformed"
  shows "fst (read_day env d) = Inr (day_coverage env d, day_usage env d)"
  using assms
  by (cases "coverage_file env d"; cases "usage_file env d")
     (simp_all add: read_day_def day_coverage_def day_usage_def)

lemma apis_handler_ok:
  assumes "d \<noteq> []" "coverage_file env d \<noteq> Malformed" "usage_file env d \<noteq> Malformed"
  shows "fst (apis_handler env (Some d)) =
     \<lparr>status = 200,
      body = TableBody (map (api_row_of (day_usage env d)) (day_coverage env d))\<rparr>"
  using read_day_ok [OF assms(2,3)] assms(1)
  by (cases "read_day env d") (auto simp: apis_handler_def)

lemma coverage_usage_handler_ok:
  assumes "d \<noteq> []" "coverage_file env d \<noteq> Malformed" "usage_file env d \<noteq> Malformed"
  shows "fst (coverage_usage_handler env (Some d)) =
     \<lparr>status = 200,
      body = ScatterBody (map (scatter_point_of (day_usage env d)) (day_coverage env d))\<rparr>"
  using read_day_ok [OF assms(2,3)] assms(1)
  by (cases "read_day env d") (auto simp: coverage_usage_handler_def)




lemma summary_handler_status:
  assumes "generateDateRange (LocalTZA env) s e = Some (Dates ds)" "s \<noteq> []" "e \<noteq> []"
  shows "map_option (status \<circ> fst) (summary_handler env (Some s) (Some e)) = Some 200"
  using assms by (simp add: summary_handler_def split: prod.splits)

lemma trends_handler_status:
  assumes "generateDateRange (LocalTZA env) s e = Some (Dates ds)" "s \<noteq> []" "e \<noteq> []"
    and "\<forall>d\<in>set ds. coverage_file env d \<noteq> Malformed"
  shows "map_option (status \<circ> fst) (trends_handler env (Some s) (Some e)) = Some 200"
proof -
  have "fst (trends_loop env ds [] []) =
      Inr (map (\<lambda>d. trend_point_of d (day_coverage env d))
             (filter (\<lambda>d. day_coverage env d \<noteq> []) ds))"
    using trends_loop_spec [OF assms(4), of "[]" "[]"] by simp
  then show ?thesis
    using assms(1-3)
    by (cases "trends_loop env ds [] []") (simp add: trends_handler_def)
qed

lemma toFixed1_zero_size:
  "full_size r = 0 \<Longrightarrow> toFixed1 (coverage_percent r) \<in> {''NaN'', ''Infinity'', ''-Infinity''}"
  by (simp add: coverage_percent_def toFixed1_def)






section \<open>The claims\<close>

text \<open>
  C1. The range 2024-01-01..2024-01-02, where the first day has the coverage
  \<open>{A: {full_size: 100, covered_lines: 50}}\<close> and the usage \<open>[{A, usage_count: 10}]\<close> and
  the second day has no coverage file and the usage \<open>[{A, usage_count: 5}]\<close>. The handler
  answers \<open>totalAPIs = 1\<close>, \<open>avgCoverage = 50\<close> and \<open>totalCalls = 10\<close>: the usage of the
  second day is not counted. The two arrays are filled by pushes of their own, so
  \<open>allCoverage\<close> has one element and \<open>allUsage\<close> two, and \<open>calculateSummary\<close> pairs them by
  index over the length of \<open>allCoverage\<close>.
\<close>

theorem summary_drops_usage_of_day_without_coverage:
  "map_option fst (summary_handler two_day_env (Some ''2024-01-01'') (Some ''2024-01-02'')) =
     Some \<lparr>status = 200,
           body = SummaryBody \<lparr>totalAPIs = 1, avgCoverage = Finite 50, totalCalls = 10\<rparr>\<rparr>"
proof -
  have g: "generateDateRange (LocalTZA two_day_env) ''2024-01-01'' ''2024-01-02'' =
      Some (Dates [''2024-01-01'', ''2024-01-02''])"
    by (simp add: two_day_env_def range_jan_1_2)
  have c: "calculateSummary
       (fst (foldl (summary_read_day two_day_env) ([], [], [ConsoleLog])
          [''2024-01-01'', ''2024-01-02'']))
       (fst (snd (foldl (summary_read_day two_day_env) ([], [], [ConsoleLog])
          [''2024-01-01'', ''2024-01-02'']))) =
      \<lparr>totalAPIs = 1, avgCoverage = Finite 50, totalCalls = 10\<rparr>"
    by code_simp
  show ?thesis
    using summary_handler_dates [OF g] c by simp
qed


text \<open>
  C2. A coverage file that exists and does not parse, on one day of a range of five.
  \<open>/api/coverage-trends\<close>, \<open>/api/coverage-usage\<close> and \<open>/api/apis\<close> call \<open>JSON.parse\<close> with
  no \<open>try\<close> around the day, so the \<open>SyntaxError\<close> reaches the outer \<open>catch\<close> and the request
  ends with the answer 500. Only \<open>/api/summary\<close> catches it per day and goes on.
\<close>

theorem malformed_file_aborts_three_handlers:
  "map_option fst (trends_handler malformed_day_env (Some ''2024-01-01'') (Some ''2024-01-05'')) =
     Some \<lparr>status = 500, body = ErrorBody ''Internal server error''\<rparr> \<and>
   fst (coverage_usage_handler malformed_day_env (Some ''2024-01-03'')) =
     \<lparr>status = 500, body = ErrorBody ''Internal server error''\<rparr> \<and>
   fst (apis_handler malformed_day_env (Some ''2024-01-03'')) =
     \<lparr>status = 500, body = ErrorBody ''Internal server error''\<rparr> \<and>
   map_option fst (summary_handler malformed_day_env (Some ''2024-01-01'') (Some ''2024-01-05'')) =
     Some \<lparr>status = 200,
           body = SummaryBody \<lparr>totalAPIs = 1, avgCoverage = Finite 50, totalCalls = 0\<rparr>\<rparr>"
proof -
  have g: "generateDateRange (LocalTZA malformed_day_env) ''2024-01-01'' ''2024-01-05'' =
      Some (Dates [''2024-01-01'', ''2024-01-02'', ''2024-01-03'', ''2024-01-04'', ''2024-01-05''])"
    by (simp add: malformed_day_env_def range_jan_1_5)
  have t: "fst (trends_loop malformed_day_env
        [''2024-01-01'', ''2024-01-02'', ''2024-01-03'', ''2024-01-04'', ''2024-01-05''] [] []) =
      Inl SyntaxError"
    by code_simp
  have a: "map_option fst (trends_handler malformed_day_env (Some ''2024-01-01'') (Some ''2024-01-05'')) =
     Some \<lparr>status = 500, body = ErrorBody ''Internal server error''\<rparr>"
    using trends_handler_dates [OF g] t by (simp del: trends_loop.simps)
  have b: "fst (coverage_usage_handler malformed_day_env (Some ''2024-01-03'')) =
     \<lparr>status = 500, body = ErrorBody ''Internal server error''\<rparr>"
    by code_simp
  have c: "fst (apis_handler malformed_day_env (Some ''2024-01-03'')) =
     \<lparr>status = 500, body = ErrorBody ''Internal server error''\<rparr>"
    by code_simp
  have s: "calculateSummary
       (fst (foldl (summary_read_day malformed_day_env) ([], [], [ConsoleLog])
          [''2024-01-01'', ''2024-01-02'', ''2024-01-03'', ''2024-01-04'', ''2024-01-05'']))
       (fst (snd (foldl (summary_read_day malformed_day_env) ([], [], [ConsoleLog])
          [''2024-01-01'', ''2024-01-02'', ''2024-01-03'', ''2024-01-04'', ''2024-01-05'']))) =
      \<lparr>totalAPIs = 1, avgCoverage = Finite 50, totalCalls = 0\<rparr>"
    by code_simp
  have d: "map_option fst (summary_handler malformed_day_env (Some ''2024-01-01'') (Some ''2024-01-05'')) =
     Some \<lparr>status = 200,
           body = SummaryBody \<lparr>totalAPIs = 1, avgCoverage = Finite 50, totalCalls = 0\<rparr>\<rparr>"
    using summary_handler_dates [OF g] s by simp
  show ?thesis using a b c d by simp
qed









text \<open>
  C4. A coverage record of size zero makes no operation fail. Its percentage is a number
  value, \<open>NaN\<close> or an infinity, not an exception, and \<open>toFixed(1)\<close> prints it. With such a
  record in the coverage map of a day, \<open>/api/coverage-usage\<close> and \<open>/api/apis\<close> answer 200 with
  a point and a row for every name, and \<open>/api/summary\<close> and \<open>/api/coverage-trends\<close> answer
  200 for a range that holds the day. In a time zone with a fixed offset the two range
  handlers return, with the answer 200, for every start and end that are dates, whatever
  the coverage records hold.
\<close>

theorem zero_size_is_not_an_exception:
  assumes "full_size r = 0" "(name, r) \<in> set cov" "coverage_file env d = Content cov"
  shows "coverage_percent r \<in> {NaN, Infinity, NegInfinity} \<and>
     (d \<noteq> [] \<and> usage_file env d \<noteq> Malformed \<longrightarrow>
        fst (coverage_usage_handler env (Some d)) =
          \<lparr>status = 200, body = ScatterBody (map (scatter_point_of (day_usage env d)) cov)\<rparr> \<and>
        fst (apis_handler env (Some d)) =
          \<lparr>status = 200, body = TableBody (map (api_row_of (day_usage env d)) cov)\<rparr> \<and>
        row_coverage (api_row_of (day_usage env d) (name, r)) \<in>
          {''NaN'', ''Infinity'', ''-Infinity''}) \<and>
     (generateDateRange (LocalTZA env) s e = Some (Dates ds) \<and> s \<noteq> [] \<and> e \<noteq> [] \<and> d \<in> set ds \<longrightarrow>
        map_option (status \<circ> fst) (summary_handler env (Some s) (Some e)) = Some 200 \<and>
        ((\<forall>d'\<in>set ds. coverage_file env d' \<noteq> Malformed) \<longrightarrow>
           map_option (status \<circ> fst) (trends_handler env (Some s) (Some e)) = Some 200)) \<and>
     ((\<forall>t isUTC. LocalTZA env t isUTC = c) \<and> Date_parse s = Some a \<and> Date_parse e = Some b \<longrightarrow>
        map_option (status \<circ> fst) (summary_handler env (Some s) (Some e)) = Some 200 \<and>
        ((\<forall>d'. coverage_file env d' \<noteq> Malformed) \<longrightarrow>
           map_option (status \<circ> fst) (trends_handler env (Some s) (Some e)) = Some 200))"
proof (intro conjI impI)
  show "coverage_percent r \<in> {NaN, Infinity, NegInfinity}"
    by (rule coverage_percent_zero_size [OF assms(1)])
next
  assume h: "d \<noteq> [] \<and> usage_file env d \<noteq> Malformed"
  have c: "coverage_file env d \<noteq> Malformed" "day_coverage env d = cov"
    using assms(3) by (simp_all add: day_coverage_def)
  show "fst (coverage_usage_handler env (Some d)) =
          \<lparr>status = 200, body = ScatterBody (map (scatter_point_of (day_usage env d)) cov)\<rparr>"
    using coverage_usage_handler_ok [of d env] h c by simp
  show "fst (apis_handler env (Some d)) =
          \<lparr>status = 200, body = TableBody (map (api_row_of (day_usage env d)) cov)\<rparr>"
    using apis_handler_ok [of d env] h c by simp
  show "row_coverage (api_row_of (day_usage env d) (name, r)) \<in>
          {''NaN'', ''Infinity'', ''-Infinity''}"
    using toFixed1_zero_size [OF assms(1)] by (simp add: api_row_of_def Let_def)
next
  assume h: "generateDateRange (LocalTZA env) s e = Some (Dates ds) \<and> s \<noteq> [] \<and> e \<noteq> [] \<and> d \<in> set ds"
  then have g: "generateDateRange (LocalTZA env) s e = Some (Dates ds)" "s \<noteq> []" "e \<noteq> []"
    by simp_all
  show "map_option (status \<circ> fst) (summary_handler env (Some s) (Some e)) = Some 200"
    by (rule summary_handler_status [OF g])
  show "map_option (status \<circ> fst) (trends_handler env (Some s) (Some e)) = Some 200"
    if "\<forall>d'\<in>set ds. coverage_file env d' \<noteq> Malformed"
    by (rule trends_handler_status [OF g that])
next
  assume h: "(\<forall>t isUTC. LocalTZA env t isUTC = c) \<and> Date_parse s = Some a \<and> Date_parse e = Some b"
  then have p1: "Date_parse s = Some a" and p2: "Date_parse e = Some b"
    and tz: "\<And>t isUTC. LocalTZA env t isUTC = c"
    by simp_all
  have g: "generateDateRange (LocalTZA env) s e = Some (Dates (map day_key [Day a..Day b]))"
    "s \<noteq> []" "e \<noteq> []"
  proof -
    show "generateDateRange (LocalTZA env) s e = Some (Dates (map day_key [Day a..Day b]))"
      by (rule generateDateRange_fixed_parsed [where c = c and a = a and b = b])
        (simp_all add: tz p1 p2)
    show "s \<noteq> []" by (rule Date_parse_nonempty [OF p1])
    show "e \<noteq> []" by (rule Date_parse_nonempty [OF p2])
  qed
  show "map_option (status \<circ> fst) (summary_handler env (Some s) (Some e)) = Some 200"
    by (rule summary_handler_status [OF g])
  show "map_option (status \<circ> fst) (trends_handler env (Some s) (Some e)) = Some 200"
    if "\<forall>d'. coverage_file env d' \<noteq> Malformed"
    using that by (intro trends_handler_status [OF g]) simp
qed


text \<open>A day with the records \<open>0/0\<close> and \<open>7/0\<close>.\<close>

theorem zero_size_is_not_an_exception_witness:
  "coverage_percent \<lparr>full_size = 0, covered_lines = 0, apidoc = ''a''\<rparr> = NaN \<and>
   fst (coverage_usage_handler zero_size_env (Some ''2024-01-01'')) =
     \<lparr>status = 200,
      body = ScatterBody [\<lparr>sp_name = ''A'', sp_coverage = NaN, sp_usage = Finite 0\<rparr>,
                          \<lparr>sp_name = ''B'', sp_coverage = Infinity, sp_usage = Finite 0\<rparr>]\<rparr> \<and>
   fst (apis_handler zero_size_env (Some ''2024-01-01'')) =
     \<lparr>status = 200,
      body = TableBody
        [\<lparr>row_name = ''A'', row_coverage = ''NaN'', row_usage = Finite 0,
          row_totalClients = Finite 0, row_apidoc = ''a'', row_fullSize = 0,
          row_coveredLines = 0\<rparr>,
         \<lparr>row_name = ''B'', row_coverage = ''Infinity'', row_usage = Finite 0,
          row_totalClients = Finite 0, row_apidoc = ''b'', row_fullSize = 0,
          row_coveredLines = 7\<rparr>]\<rparr> \<and>
   map_option (status \<circ> fst)
     (summary_handler zero_size_env (Some ''2024-01-01'') (Some ''2024-01-02'')) = Some 200 \<and>
   map_option (status \<circ> fst)
     (trends_handler zero_size_env (Some ''2024-01-01'') (Some ''2024-01-02'')) = Some 200"
proof -
  have g: "generateDateRange (LocalTZA zero_size_env) ''2024-01-01'' ''2024-01-02'' =
      Some (Dates [''2024-01-01'', ''2024-01-02''])"
    by (simp add: zero_size_env_def range_jan_1_2)
  have c: "coverage_file zero_size_env ''2024-01-01'' =
      Content [(''A'', \<lparr>full_size = 0, covered_lines = 0, apidoc = ''a''\<rparr>),
               (''B'', \<lparr>full_size = 0, covered_lines = 7, apidoc = ''b''\<rparr>)]"
    by (simp add: zero_size_env_def)
  have m: "\<forall>d'\<in>set [''2024-01-01'', ''2024-01-02'']. coverage_file zero_size_env d' \<noteq> Malformed"
    "usage_file zero_size_env ''2024-01-01'' \<noteq> Malformed"
    by (simp_all add: zero_size_env_def)
  have u: "day_usage zero_size_env ''2024-01-01'' = []"
    by (simp add: day_usage_def zero_size_env_def)
  have e: "map (scatter_point_of [])
        [(''A'', \<lparr>full_size = 0, covered_lines = 0, apidoc = ''a''\<rparr>),
         (''B'', \<lparr>full_size = 0, covered_lines = 7, apidoc = ''b''\<rparr>)] =
      [\<lparr>sp_name = ''A'', sp_coverage = NaN, sp_usage = Finite 0\<rparr>,
       \<lparr>sp_name = ''B'', sp_coverage = Infinity, sp_usage = Finite 0\<rparr>]"
    "map (api_row_of [])
        [(''A'', \<lparr>full_size = 0, covered_lines = 0, apidoc = ''a''\<rparr>),
         (''B'', \<lparr>full_size = 0, covered_lines = 7, apidoc = ''b''\<rparr>)] =
      [\<lparr>row_name = ''A'', row_coverage = ''NaN'', row_usage = Finite 0,
          row_totalClients = Finite 0, row_apidoc = ''a'', row_fullSize = 0,
          row_coveredLines = 0\<rparr>,
         \<lparr>row_name = ''B'', row_coverage = ''Infinity'', row_usage = Finite 0,
          row_totalClients = Finite 0, row_apidoc = ''b'', row_fullSize = 0,
          row_coveredLines = 7\<rparr>]"
    "coverage_percent \<lparr>full_size = 0, covered_lines = 0, apidoc = ''a''\<rparr> = NaN"
    by code_simp+
  show ?thesis
    using zero_size_is_not_an_exception [of "\<lparr>full_size = 0, covered_lines = 0, apidoc = ''a''\<rparr>"
        "''A''" _ zero_size_env "''2024-01-01''" "''2024-01-01''" "''2024-01-02''"
        "[''2024-01-01'', ''2024-01-02'']" 0 1704067200000 1704153600000, OF _ _ c]
      g m u e parse_jan_2024
    by (simp add: zero_size_env_def utc_zone_def)
qed








text \<open>
  C6. A start or an end that is not a date. No file is looked at, and the answer is the
  500 of the outer \<open>catch\<close> with the message \<open>Internal server error\<close>:
  \<open>generateDateRange\<close> returns its \<open>Error\<close> object, no caller tests for it, and iterating
  over it throws a \<open>TypeError\<close>. The message \<open>Invalid start or end date\<close> is not sent.
\<close>

theorem invalid_date_answers_500:
  "summary_handler env (Some ''not-a-date'') (Some ''2024-01-02'') =
     Some (\<lparr>status = 500, body = ErrorBody ''Internal server error''\<rparr>,
           [ConsoleLog, ConsoleError]) \<and>
   trends_handler env (Some ''2024-01-01'') (Some ''not-a-date'') =
     Some (\<lparr>status = 500, body = ErrorBody ''Internal server error''\<rparr>, [ConsoleError])"
proof -
  have p: "Date_parse ''not-a-date'' = None" by (simp add: Date_parse_def)
  have "generateDateRange tza ''not-a-date'' ''2024-01-02'' = Some InvalidDate" for tza
    by (simp add: generateDateRange_def p)
  moreover have "generateDateRange tza ''2024-01-01'' ''not-a-date'' = Some InvalidDate" for tza
    by (simp add: generateDateRange_def p split: option.splits)
  ultimately show ?thesis
    by (simp add: summary_handler_def trends_handler_def internal_error_def)
qed











text \<open>
  C9. When every day of the range lacks both files, the summary handler answers 200 with
  \<open>totalAPIs = 0\<close>, \<open>avgCoverage = 0\<close> and \<open>totalCalls = 0\<close>. When the start is later than
  the end, \<open>generateDateRange\<close> returns the empty array, not an error, in every time
  zone, and the summary is the same zero summary.
\<close>

theorem summary_of_nothing:
  "(generateDateRange (LocalTZA env) s e = Some (Dates ds) \<and> s \<noteq> [] \<and> e \<noteq> [] \<and>
    (\<forall>d\<in>set ds. coverage_file env d = Absent \<and> usage_file env d = Absent) \<longrightarrow>
      map_option fst (summary_handler env (Some s) (Some e)) =
        Some \<lparr>status = 200,
              body = SummaryBody \<lparr>totalAPIs = 0, avgCoverage = Finite 0, totalCalls = 0\<rparr>\<rparr>) \<and>
   (Date_parse s = Some a \<and> Date_parse e = Some b \<and> b < a \<longrightarrow>
      generateDateRange (LocalTZA env) s e = Some (Dates []) \<and>
      map_option fst (summary_handler env (Some s) (Some e)) =
        Some \<lparr>status = 200,
              body = SummaryBody \<lparr>totalAPIs = 0, avgCoverage = Finite 0, totalCalls = 0\<rparr>\<rparr>)"
proof (intro conjI impI)
  assume h: "generateDateRange (LocalTZA env) s e = Some (Dates ds) \<and> s \<noteq> [] \<and> e \<noteq> [] \<and>
    (\<forall>d\<in>set ds. coverage_file env d = Absent \<and> usage_file env d = Absent)"
  then have nc: "\<forall>d\<in>set ds. \<forall>cov. coverage_file env d \<noteq> Content cov" by auto
  have g: "generateDateRange (LocalTZA env) s e = Some (Dates ds)" "s \<noteq> []" "e \<noteq> []"
    using h by simp_all
  show "map_option fst (summary_handler env (Some s) (Some e)) =
        Some \<lparr>status = 200,
              body = SummaryBody \<lparr>totalAPIs = 0, avgCoverage = Finite 0, totalCalls = 0\<rparr>\<rparr>"
    by (rule summary_no_coverage [OF g nc])
next
  assume h: "Date_parse s = Some a \<and> Date_parse e = Some b \<and> b < a"
  then have p: "Date_parse s = Some a" "Date_parse e = Some b" "b < a" by simp_all
  show g: "generateDateRange (LocalTZA env) s e = Some (Dates [])"
    by (rule generateDateRange_reversed [OF p])
  have ne: "s \<noteq> []" "e \<noteq> []" using p Date_parse_nonempty by blast+
  show "map_option fst (summary_handler env (Some s) (Some e)) =
        Some \<lparr>status = 200,
              body = SummaryBody \<lparr>totalAPIs = 0, avgCoverage = Finite 0, totalCalls = 0\<rparr>\<rparr>"
    by (rule summary_no_coverage [OF g ne]) simp
qed


text \<open>Two days without files, and the same two days in reverse order.\<close>

theorem summary_of_nothing_witness:
  "map_option fst (summary_handler empty_env (Some ''2024-01-01'') (Some ''2024-01-02'')) =
     Some \<lparr>status = 200,
           body = SummaryBody \<lparr>totalAPIs = 0, avgCoverage = Finite 0, totalCalls = 0\<rparr>\<rparr> \<and>
   generateDateRange utc_zone ''2024-01-02'' ''2024-01-01'' = Some (Dates []) \<and>
   map_option fst (summary_handler empty_env (Some ''2024-01-02'') (Some ''2024-01-01'')) =
     Some \<lparr>status = 200,
           body = SummaryBody \<lparr>totalAPIs = 0, avgCoverage = Finite 0, totalCalls = 0\<rparr>\<rparr>"
  using summary_of_nothing [of empty_env "''2024-01-01''" "''2024-01-02''"
      "[''2024-01-01'', ''2024-01-02'']"]
    summary_of_nothing [of empty_env "''2024-01-02''" "''2024-01-01''" _ 1704153600000
      1704067200000]
    range_jan_1_2 parse_jan_2024
  by (simp add: empty_env_def)


text \<open>
  C10. Whenever no coverage file is loaded for any day of the range (each is missing or
  malformed), the summary handler answers 200 with \<open>totalAPIs = 0\<close>, \<open>avgCoverage = 0\<close> and
  \<open>totalCalls = 0\<close>, whatever the usage files of the range hold: \<open>calculateSummary\<close> returns
  the zero summary as soon as \<open>allCoverage\<close> is empty.
\<close>

theorem summary_without_coverage:
  assumes "generateDateRange (LocalTZA env) s e = Some (Dates ds)" "s \<noteq> []" "e \<noteq> []"
    and "\<forall>d\<in>set ds. \<forall>cov. coverage_file env d \<noteq> Content cov"
  shows "map_option fst (summary_handler env (Some s) (Some e)) =
     Some \<lparr>status = 200,
           body = SummaryBody \<lparr>totalAPIs = 0, avgCoverage = Finite 0, totalCalls = 0\<rparr>\<rparr>"
  using assms by (rule summary_no_coverage)

text \<open>A range of two days with usage counts of 7 and no coverage file.\<close>

theorem summary_without_coverage_witness:
  "usage_file usage_only_env ''2024-01-01'' =
     Content [\<lparr>api_name = ''A'', usage_count = JNum 7, total_clients = JNum 1\<rparr>] \<and>
   map_option fst (summary_handler usage_only_env (Some ''2024-01-01'') (Some ''2024-01-02'')) =
     Some \<lparr>status = 200,
           body = SummaryBody \<lparr>totalAPIs = 0, avgCoverage = Finite 0, totalCalls = 0\<rparr>\<rparr>"
  using summary_without_coverage [of usage_only_env "''2024-01-01''" "''2024-01-02''"
      "[''2024-01-01'', ''2024-01-02'']"] range_jan_1_2
  by (simp add: usage_only_env_def)


end
